theory Spec2Isabelle
  imports Complex_Main "HOL-Library.AList" "HOL-Library.Log_Nat"
    "HOL-Library.Char_ord" "HOL-Library.List_Lexorder"
begin

section \<open>Behavioural test scoring for a token classifier (evaluation.py)\<close>

text \<open>
  The three scorers of \<^verbatim>\<open>evaluation.py\<close> read a tab-separated file line by line.
  A file is modelled as the list of lines that iterating over the opened file yields; a
  Python \<^verbatim>\<open>str\<close> is a \<^typ>\<open>string\<close> whose characters stand for code points below 256.
  An exception is a value of \<open>error\<close>; a function that may raise returns
  \<open>error + 'a\<close> with \<open>Inl\<close> for the exception.
\<close>

subsection \<open>Exceptions\<close>

datatype error =
    ValueError
  | IndexError
  | KeyError
  | ZeroDivisionError
  | OverflowError
  | UnboundLocalError
  | FileNotFoundError

definition bind_err :: "error + 'a \<Rightarrow> ('a \<Rightarrow> error + 'b) \<Rightarrow> error + 'b" where
  "bind_err r f = (case r of Inl e \<Rightarrow> Inl e | Inr x \<Rightarrow> f x)"

text \<open>A \<^verbatim>\<open>for line in file\<close> loop whose body may raise: the first exception ends it.\<close>

fun for_lines :: "('s \<Rightarrow> string \<Rightarrow> error + 's) \<Rightarrow> 's \<Rightarrow> string list \<Rightarrow> error + 's" where
  "for_lines body st [] = Inr st"
| "for_lines body st (line # file) =
     (case body st line of Inl e \<Rightarrow> Inl e | Inr st' \<Rightarrow> for_lines body st' file)"

subsection \<open>Text primitives: \<^verbatim>\<open>str.strip\<close>, \<^verbatim>\<open>str.split\<close>, \<^verbatim>\<open>int\<close>, \<^verbatim>\<open>str\<close>\<close>

definition TAB :: char where
  "TAB = CHR 0x09"

definition NEWLINE :: char where
  "NEWLINE = CHR 0x0A"

text \<open>The characters below code point 256 that \<^verbatim>\<open>str.isspace\<close> accepts.\<close>

definition isspace :: "char \<Rightarrow> bool" where
  "isspace c = (of_char c \<in> {9, 10, 11, 12, 13, 28, 29, 30, 31, 32, 133, 160 :: nat})"

definition strip :: "string \<Rightarrow> string" where
  "strip s = rev (dropWhile isspace (rev (dropWhile isspace s)))"

text \<open>\<^verbatim>\<open>s.split(sep)\<close> for a one-character separator: the empty string gives one empty field.\<close>

fun split :: "char \<Rightarrow> string \<Rightarrow> string list" where
  "split sep [] = [[]]"
| "split sep (c # cs) =
     (if c = sep then [] # split sep cs
      else (case split sep cs of
              [] \<Rightarrow> [[c]]
            | w # ws \<Rightarrow> (c # w) # ws))"

text \<open>
  \<^verbatim>\<open>int(s)\<close> in base 10: surrounding whitespace, an optional sign, then decimal digits
  in which single underscores may stand between two digits. Of the characters that
  \<^verbatim>\<open>str.strip\<close> removes, \<^verbatim>\<open>int\<close> does not skip the separators 28 to 31. The limit on
  the number of digits that some interpreters impose is not modelled.
\<close>

definition int_space :: "char \<Rightarrow> bool" where
  "int_space c = (of_char c \<in> {9, 10, 11, 12, 13, 32, 133, 160 :: nat})"

definition digit_val :: "char \<Rightarrow> nat option" where
  "digit_val c =
     (let n = (of_char c :: nat) in if 48 \<le> n \<and> n \<le> 57 then Some (n - 48) else None)"

fun parse_digits :: "nat \<Rightarrow> string \<Rightarrow> nat option" where
  "parse_digits acc [] = Some acc"
| "parse_digits acc [c] =
     (case digit_val c of None \<Rightarrow> None | Some v \<Rightarrow> Some (10 * acc + v))"
| "parse_digits acc (c # d # ds) =
     (if c = CHR ''_'' then
        (case digit_val d of None \<Rightarrow> None | Some v \<Rightarrow> parse_digits (10 * acc + v) ds)
      else
        (case digit_val c of None \<Rightarrow> None | Some v \<Rightarrow> parse_digits (10 * acc + v) (d # ds)))"

definition py_int :: "string \<Rightarrow> int option" where
  "py_int s =
     (let t = rev (dropWhile int_space (rev (dropWhile int_space s)));
          neg = (t \<noteq> [] \<and> hd t = CHR ''-'');
          u = (if t \<noteq> [] \<and> (hd t = CHR ''-'' \<or> hd t = CHR ''+'') then tl t else t)
      in case u of
           [] \<Rightarrow> None
         | c # cs \<Rightarrow>
             (case digit_val c of
                None \<Rightarrow> None
              | Some v \<Rightarrow>
                  (case parse_digits v cs of
                     None \<Rightarrow> None
                   | Some n \<Rightarrow> Some (if neg then - int n else int n))))"

text \<open>\<^verbatim>\<open>str(n)\<close> for an integer, as the f-string \<^verbatim>\<open>f"{a}-{b}"\<close> formats it.\<close>

definition digit_char :: "nat \<Rightarrow> char" where
  "digit_char d = char_of (48 + d)"

fun str_nat :: "nat \<Rightarrow> string" where
  "str_nat n = (if n < 10 then [digit_char n] else str_nat (n div 10) @ [digit_char (n mod 10)])"

declare str_nat.simps [simp del]

definition str_int :: "int \<Rightarrow> string" where
  "str_int i = (if i < 0 then CHR ''-'' # str_nat (nat (- i)) else str_nat (nat i))"

subsection \<open>Rows\<close>

record row =
  sentence_id :: string
  token_id :: string
  token :: string
  gold_label :: string
  system_label :: string

text \<open>
  \<^verbatim>\<open>sentence_id, token_id, token, gold_label, system_label = line.strip().split('\t')\<close>:
  unpacking raises ValueError unless there are exactly five fields.
\<close>

definition unpack_row :: "string \<Rightarrow> error + row" where
  "unpack_row line =
     (case split TAB (strip line) of
        [a, b, c, d, e] \<Rightarrow>
          Inr \<lparr>sentence_id = a, token_id = b, token = c, gold_label = d, system_label = e\<rparr>
      | _ \<Rightarrow> Inl ValueError)"

text \<open>The line that prediction.py writes for one token (the producer of the input files).\<close>

definition write_row :: "string \<Rightarrow> string \<Rightarrow> string \<Rightarrow> string \<Rightarrow> string \<Rightarrow> string" where
  "write_row sid tid tok gold sys =
     sid @ [TAB] @ tid @ [TAB] @ tok @ [TAB] @ gold @ [TAB] @ sys @ [NEWLINE]"

subsection \<open>The failure rate: \<^verbatim>\<open>int((failed / total) * 100)\<close>\<close>

text \<open>
  The source divides two integers with \<^verbatim>\<open>/\<close>, which yields a binary64 float, multiplies
  that float by 100 and truncates with \<^verbatim>\<open>int\<close>. A finite non-negative float is a
  pair \<open>(m, q)\<close> standing for \<open>m * 2 ^ q\<close>. \<open>round_ratio a b\<close> is the float nearest to
  the exact quotient \<open>a / b\<close> (53 significant bits, least exponent \<open>-1074\<close>, ties to the
  even mantissa), which is what both the division and the multiplication return when
  the result is in range.
\<close>

definition ratio_exponent :: "nat \<Rightarrow> nat \<Rightarrow> int" where
  "ratio_exponent a b =
     (let d = int (floorlog 2 a) - int (floorlog 2 b)
      in if (if 0 \<le> d then b * 2 ^ nat d \<le> a else b \<le> a * 2 ^ nat (- d)) then d else d - 1)"

definition round_ratio :: "nat \<Rightarrow> nat \<Rightarrow> nat \<times> int" where
  "round_ratio a b =
     (if a = 0 then (0, 0)
      else
        let q = max (ratio_exponent a b - 52) (- 1074);
            n = (if 0 \<le> q then a else a * 2 ^ nat (- q));
            dn = (if 0 \<le> q then b * 2 ^ nat q else b);
            m0 = n div dn;
            r = n mod dn;
            m = (if 2 * r < dn then m0
                 else if dn < 2 * r then m0 + 1
                 else if even m0 then m0 else m0 + 1)
        in (m, q))"

definition float_overflow :: "nat \<times> int \<Rightarrow> bool" where
  "float_overflow x = (case x of (m, q) \<Rightarrow> 0 \<le> q \<and> 2 ^ 1024 \<le> m * 2 ^ nat q)"

definition float_times :: "nat \<times> int \<Rightarrow> nat \<Rightarrow> nat \<times> int" where
  "float_times x k =
     (case x of (m, q) \<Rightarrow>
        if 0 \<le> q then round_ratio (m * 2 ^ nat q * k) 1
        else round_ratio (m * k) (2 ^ nat (- q)))"

definition float_trunc :: "nat \<times> int \<Rightarrow> int" where
  "float_trunc x =
     (case x of (m, q) \<Rightarrow> if 0 \<le> q then int (m * 2 ^ nat q) else int (m div 2 ^ nat (- q)))"

definition failure_rate :: "nat \<Rightarrow> nat \<Rightarrow> error + int" where
  "failure_rate nfailed ntotal =
     (if ntotal = 0 then Inl ZeroDivisionError
      else
        let ratio = round_ratio nfailed ntotal
        in if float_overflow ratio then Inl OverflowError
           else
             let product = float_times ratio 100
             in if float_overflow product then Inl OverflowError
                else Inr (float_trunc product))"

subsection \<open>\<^verbatim>\<open>evaluate_mft\<close>\<close>

record mft_state =
  current_sentence_id :: "string option"
  sentence_labels_match :: bool
  total_sentences :: nat
  failed_sentences :: nat
  failed_sentence_ids :: "string list"

definition mft_init :: mft_state where
  "mft_init =
     \<lparr>current_sentence_id = None, sentence_labels_match = True, total_sentences = 0,
      failed_sentences = 0, failed_sentence_ids = []\<rparr>"

text \<open>The two statements that record a failed sentence (lines 24-25 and 40-41).\<close>

definition mft_record_failure :: "string \<Rightarrow> mft_state \<Rightarrow> mft_state" where
  "mft_record_failure c st =
     (if \<not> sentence_labels_match st then
        st\<lparr>failed_sentences := failed_sentences st + 1,
           failed_sentence_ids := failed_sentence_ids st @ [c]\<rparr>
      else st)"

text \<open>The body of \<^verbatim>\<open>for line in file\<close>.\<close>

definition mft_line :: "mft_state \<Rightarrow> string \<Rightarrow> error + mft_state" where
  "mft_line st line =
     (if strip line = [] then
        (case current_sentence_id st of
           None \<Rightarrow> Inr st
         | Some c \<Rightarrow>
             Inr ((mft_record_failure c (st\<lparr>total_sentences := total_sentences st + 1\<rparr>))
                    \<lparr>sentence_labels_match := True\<rparr>))
      else
        bind_err (unpack_row line) (\<lambda>r.
          if Some (sentence_id r) = current_sentence_id st then
            (if gold_label r \<noteq> ''_'' \<and> gold_label r \<noteq> system_label r
             then Inr (st\<lparr>sentence_labels_match := False\<rparr>)
             else Inr st)
          else
            (let st1 = (case current_sentence_id st of
                          None \<Rightarrow> st
                        | Some c \<Rightarrow> mft_record_failure c st)
             in Inr (st1\<lparr>current_sentence_id := Some (sentence_id r),
                         sentence_labels_match :=
                           (gold_label r = ''_'' \<or> gold_label r = system_label r)\<rparr>))))"

definition evaluate_mft :: "string list \<Rightarrow> error + (int \<times> string list)" where
  "evaluate_mft file =
     bind_err (for_lines mft_line mft_init file) (\<lambda>st.
       bind_err (failure_rate (failed_sentences st) (total_sentences st)) (\<lambda>rate.
         Inr (rate, failed_sentence_ids st)))"

subsection \<open>What the program prints\<close>

text \<open>One constructor for each \<^verbatim>\<open>print\<close> call of the source, holding the values it formats.\<close>

datatype printed =
    Warning_uneven
  | Warning_unknown_type string
  | File_line string
  | Evaluation_type_line string
  | Failure_rate_line int
  | Failed_sentence_ids_line "string list"
  | Failed_sentence_pairs_line string
  | Evaluating_model_line string
  | Separator_line

subsection \<open>Dictionaries\<close>

text \<open>
  A Python \<^verbatim>\<open>dict\<close> is an association list in insertion order; \<open>AList.update\<close> keeps
  the place of a key that is already present and replaces its value, as an assignment
  \<^verbatim>\<open>d[k] = v\<close> does. \<open>getitem\<close> is \<^verbatim>\<open>d[k]\<close>, which raises KeyError.
\<close>

definition getitem :: "('k \<times> 'v) list \<Rightarrow> 'k \<Rightarrow> error + 'v" where
  "getitem d k = (case map_of d k of None \<Rightarrow> Inl KeyError | Some v \<Rightarrow> Inr v)"

text \<open>The comprehension \<^verbatim>\<open>{k: v for k, v in pairs}\<close>: a later pair overwrites an earlier one.\<close>

definition dict_of :: "('k \<times> 'v) list \<Rightarrow> ('k \<times> 'v) list" where
  "dict_of kvs = foldl (\<lambda>d kv. AList.update (fst kv) (snd kv) d) [] kvs"

subsection \<open>Reading the keyed sentence map (\<^verbatim>\<open>evaluate_inv\<close>, \<^verbatim>\<open>evaluate_dir\<close>)\<close>

text \<open>
  \<^verbatim>\<open>if sentence_id not in sentences_data: sentences_data[sentence_id] = []\<close> followed by
  \<^verbatim>\<open>sentences_data[sentence_id].append(x)\<close>.
\<close>

definition store_token :: "int \<Rightarrow> 'v \<Rightarrow> (int \<times> 'v list) list \<Rightarrow> error + (int \<times> 'v list) list" where
  "store_token sid x sentences_data =
     (let sd1 = (if map_of sentences_data sid = None
                 then AList.update sid [] sentences_data else sentences_data)
      in bind_err (getitem sd1 sid) (\<lambda>l. Inr (AList.update sid (l @ [x]) sd1)))"

text \<open>
  The body of the reading loop. \<open>keep\<close> builds what is stored for a retained row:
  \<^verbatim>\<open>(gold_label, system_label)\<close> in \<^verbatim>\<open>evaluate_inv\<close> and
  \<^verbatim>\<open>(token, gold_label, system_label)\<close> in \<^verbatim>\<open>evaluate_dir\<close>; the two loops are
  otherwise the same text.
\<close>

definition keyed_line ::
  "(row \<Rightarrow> 'v) \<Rightarrow> (int \<times> 'v list) list \<Rightarrow> string \<Rightarrow> error + (int \<times> 'v list) list" where
  "keyed_line keep sentences_data line =
     (if strip line = [] then Inr sentences_data
      else
        bind_err (unpack_row line) (\<lambda>r.
          case py_int (sentence_id r) of
            None \<Rightarrow> Inl ValueError
          | Some sid \<Rightarrow>
              if gold_label r = ''_'' then Inr sentences_data
              else store_token sid (keep r) sentences_data))"

definition inv_keep :: "row \<Rightarrow> string \<times> string" where
  "inv_keep r = (gold_label r, system_label r)"

definition dir_keep :: "row \<Rightarrow> string \<times> string \<times> string" where
  "dir_keep r = (token r, gold_label r, system_label r)"

subsection \<open>Scoring sentence pairs\<close>

text \<open>Lines 98-102: the scan of the first sentence's tokens, left by \<^verbatim>\<open>break\<close>.\<close>

fun inv_scan :: "(string \<times> string) list \<Rightarrow> (string \<times> string) list \<Rightarrow> bool" where
  "inv_scan second_sentence_map [] = False"
| "inv_scan second_sentence_map ((gold, system) # rest) =
     (if map_of second_sentence_map gold \<noteq> None
         \<and> Some system \<noteq> map_of second_sentence_map gold
      then True
      else inv_scan second_sentence_map rest)"

definition inv_pair_failed :: "(string \<times> string) list \<Rightarrow> (string \<times> string) list \<Rightarrow> bool" where
  "inv_pair_failed first_sentence_data second_sentence_data =
     (let first_sentence_map = dict_of first_sentence_data;
          second_sentence_map = dict_of second_sentence_data
      in inv_scan second_sentence_map first_sentence_data)"

text \<open>Lines 156-163: the scan of the items of the first sentence's map.\<close>

fun dir_scan ::
  "(string \<times> string \<times> string) list \<Rightarrow> (string \<times> string \<times> string) list \<Rightarrow> bool" where
  "dir_scan second_sentence_map [] = False"
| "dir_scan second_sentence_map ((tok, gold, system) # rest) =
     (case map_of second_sentence_map tok of
        None \<Rightarrow> dir_scan second_sentence_map rest
      | Some (g2, second_system_label) \<Rightarrow>
          if system = second_system_label then True
          else dir_scan second_sentence_map rest)"

definition dir_pair_failed ::
  "(string \<times> string \<times> string) list \<Rightarrow> (string \<times> string \<times> string) list \<Rightarrow> bool" where
  "dir_pair_failed first_sentence_data second_sentence_data =
     (let first_sentence_map = dict_of first_sentence_data;
          second_sentence_map = dict_of second_sentence_data
      in dir_scan second_sentence_map first_sentence_map)"

definition pair_id :: "int \<Rightarrow> int \<Rightarrow> string" where
  "pair_id a b = str_int a @ ''-'' @ str_int b"

text \<open>
  \<^verbatim>\<open>for i in range(0, len(sentence_ids), 2)\<close> with the counters
  \<open>(total_pairs, failed_pairs, failed_ids)\<close>. Reading
  \<^verbatim>\<open>sentence_ids[i+1]\<close> past the end of the list raises IndexError.
\<close>

function pair_loop ::
  "('v list \<Rightarrow> 'v list \<Rightarrow> bool) \<Rightarrow> (int \<times> 'v list) list \<Rightarrow> int list \<Rightarrow> nat
     \<Rightarrow> nat \<times> nat \<times> string list \<Rightarrow> error + (nat \<times> nat \<times> string list)" where
  "pair_loop pair_failed sentences_data sentence_ids i st =
     (if i < length sentence_ids then
        (case getitem sentences_data (sentence_ids ! i) of
           Inl e \<Rightarrow> Inl e
         | Inr first_sentence_data \<Rightarrow>
             if i + 1 < length sentence_ids then
               (case getitem sentences_data (sentence_ids ! (i + 1)) of
                  Inl e \<Rightarrow> Inl e
                | Inr second_sentence_data \<Rightarrow>
                    (case st of (total_pairs, failed_pairs, failed_ids) \<Rightarrow>
                       pair_loop pair_failed sentences_data sentence_ids (i + 2)
                         (if pair_failed first_sentence_data second_sentence_data
                          then (total_pairs + 1, failed_pairs + 1,
                                failed_ids
                                  @ [pair_id (sentence_ids ! i) (sentence_ids ! (i + 1))])
                          else (total_pairs + 1, failed_pairs, failed_ids))))
             else Inl IndexError)
      else Inr st)"
  by pat_completeness auto
termination
  by (relation "measure (\<lambda>(pf, sd, ids, i, st). length ids - i)") auto

declare pair_loop.simps [simp del]

definition evaluate_pairs ::
  "(row \<Rightarrow> 'v) \<Rightarrow> ('v list \<Rightarrow> 'v list \<Rightarrow> bool) \<Rightarrow> string list
     \<Rightarrow> printed list \<times> (error + (int \<times> string list))" where
  "evaluate_pairs keep pair_failed file =
     (case for_lines (keyed_line keep) [] file of
        Inl e \<Rightarrow> ([], Inl e)
      | Inr sentences_data \<Rightarrow>
          let sentence_ids = sort (map fst sentences_data)
          in (if length sentence_ids mod 2 \<noteq> 0 then [Warning_uneven] else [],
              bind_err (pair_loop pair_failed sentences_data sentence_ids 0 (0, 0, []))
                (\<lambda>(total_pairs, failed_pairs, failed_ids).
                   bind_err (failure_rate failed_pairs total_pairs) (\<lambda>rate.
                     Inr (rate, failed_ids)))))"

definition evaluate_inv :: "string list \<Rightarrow> printed list \<times> (error + (int \<times> string list))" where
  "evaluate_inv file = evaluate_pairs inv_keep inv_pair_failed file"

definition evaluate_dir :: "string list \<Rightarrow> printed list \<times> (error + (int \<times> string list))" where
  "evaluate_dir file = evaluate_pairs dir_keep dir_pair_failed file"

subsection \<open>\<^verbatim>\<open>evaluate_file\<close> and \<^verbatim>\<open>main\<close>\<close>

text \<open>
  The operating system as the program sees it: \<^verbatim>\<open>os.listdir\<close> (\<open>None\<close> when the
  directory is missing), \<^verbatim>\<open>os.path.isdir\<close>, and the lines of a file opened for reading
  (\<open>None\<close> when it cannot be opened).
\<close>

record filesystem =
  listdir :: "string \<Rightarrow> string list option"
  isdir :: "string \<Rightarrow> bool"
  open_read :: "string \<Rightarrow> string list option"

text \<open>\<^verbatim>\<open>sub in s\<close>, \<^verbatim>\<open>s.endswith(suffix)\<close>, \<^verbatim>\<open>sep.join(xs)\<close> and the two path functions.\<close>

fun contains :: "string \<Rightarrow> string \<Rightarrow> bool" where
  "contains sub [] = (sub = [])"
| "contains sub (c # cs) = (take (length sub) (c # cs) = sub \<or> contains sub cs)"

definition endswith :: "string \<Rightarrow> string \<Rightarrow> bool" where
  "endswith s suffix =
     (length suffix \<le> length s \<and> drop (length s - length suffix) s = suffix)"

fun join :: "string \<Rightarrow> string list \<Rightarrow> string" where
  "join sep [] = []"
| "join sep [x] = x"
| "join sep (x # y # ys) = x @ sep @ join sep (y # ys)"

definition path_join :: "string \<Rightarrow> string \<Rightarrow> string" where
  "path_join d f = (if f \<noteq> [] \<and> hd f = CHR ''/'' then f else d @ ''/'' @ f)"

definition basename :: "string \<Rightarrow> string" where
  "basename p = rev (takeWhile (\<lambda>c. c \<noteq> CHR ''/'') (rev p))"

text \<open>
  Lines 174-184: the choice of the scorer. The result holds the local variables
  \<^verbatim>\<open>evaluation_type, failure_rate, failed_sentence_ids\<close>, or \<open>None\<close> when the
  \<^verbatim>\<open>else\<close> branch ran and left them unbound.
\<close>

definition run_scorer ::
  "filesystem \<Rightarrow> string \<Rightarrow> printed list \<times> (error + (string \<times> int \<times> string list) option)" where
  "run_scorer fs file_path =
     (if contains ''MFT'' file_path then
        (case open_read fs file_path of
           None \<Rightarrow> ([], Inl FileNotFoundError)
         | Some file \<Rightarrow>
             (case evaluate_mft file of
                Inl e \<Rightarrow> ([], Inl e)
              | Inr (rate, ids) \<Rightarrow> ([], Inr (Some (''MFT'', rate, ids)))))
      else if contains ''INV'' file_path then
        (case open_read fs file_path of
           None \<Rightarrow> ([], Inl FileNotFoundError)
         | Some file \<Rightarrow>
             (case evaluate_inv file of
                (out, Inl e) \<Rightarrow> (out, Inl e)
              | (out, Inr (rate, ids)) \<Rightarrow> (out, Inr (Some (''INV'', rate, ids)))))
      else if contains ''DIR'' file_path then
        (case open_read fs file_path of
           None \<Rightarrow> ([], Inl FileNotFoundError)
         | Some file \<Rightarrow>
             (case evaluate_dir file of
                (out, Inl e) \<Rightarrow> (out, Inl e)
              | (out, Inr (rate, ids)) \<Rightarrow> (out, Inr (Some (''DIR'', rate, ids)))))
      else ([Warning_unknown_type file_path], Inr None))"

text \<open>
  Lines 186-193: the report. Formatting \<^verbatim>\<open>evaluation_type\<close> when it is unbound raises
  UnboundLocalError, after the line naming the file has been printed.
\<close>

definition evaluate_file :: "filesystem \<Rightarrow> string \<Rightarrow> printed list \<times> (error + unit)" where
  "evaluate_file fs file_path =
     (case run_scorer fs file_path of
        (out, Inl e) \<Rightarrow> (out, Inl e)
      | (out, Inr None) \<Rightarrow> (out @ [File_line (basename file_path)], Inl UnboundLocalError)
      | (out, Inr (Some (evaluation_type, rate, ids))) \<Rightarrow>
          (out @ [File_line (basename file_path), Evaluation_type_line evaluation_type,
                  Failure_rate_line rate]
             @ (if contains ''MFT'' file_path \<and> ids \<noteq> [] then [Failed_sentence_ids_line ids]
                else if ids \<noteq> [] then [Failed_sentence_pairs_line (join '', '' ids)]
                else []),
           Inr ()))"

text \<open>The inner loop of \<^verbatim>\<open>main\<close> over the sorted file names of one directory.\<close>

fun files_loop :: "filesystem \<Rightarrow> string \<Rightarrow> string list \<Rightarrow> printed list \<times> (error + unit)" where
  "files_loop fs output_dir [] = ([], Inr ())"
| "files_loop fs output_dir (filename # rest) =
     (if endswith filename ''.tsv'' then
        (case evaluate_file fs (path_join output_dir filename) of
           (out, Inl e) \<Rightarrow> (out, Inl e)
         | (out, Inr u) \<Rightarrow>
             (case files_loop fs output_dir rest of (out', r) \<Rightarrow> (out @ out', r)))
      else files_loop fs output_dir rest)"

text \<open>The outer loop of \<^verbatim>\<open>main\<close> over the directories.\<close>

fun dirs_loop :: "filesystem \<Rightarrow> string list \<Rightarrow> printed list \<times> (error + unit)" where
  "dirs_loop fs [] = ([], Inr ())"
| "dirs_loop fs (output_dir # rest) =
     (case listdir fs output_dir of
        None \<Rightarrow> ([Evaluating_model_line output_dir], Inl FileNotFoundError)
      | Some names \<Rightarrow>
          let file_names = sort (filter (\<lambda>f. \<not> isdir fs (path_join output_dir f)) names)
          in (case files_loop fs output_dir file_names of
                (out, Inl e) \<Rightarrow> (Evaluating_model_line output_dir # out, Inl e)
              | (out, Inr u) \<Rightarrow>
                  (case dirs_loop fs rest of
                     (out', r) \<Rightarrow>
                       (Evaluating_model_line output_dir # out @ [Separator_line] @ out', r))))"

definition output_dirs :: "string list" where
  "output_dirs = [''datasets/output_M1'', ''datasets/output_M2'', ''datasets/output_M3'']"

definition main :: "filesystem \<Rightarrow> printed list \<times> (error + unit)" where
  "main fs = dirs_loop fs output_dirs"

subsection \<open>The pairing and the verdicts, as the specification words them\<close>

text \<open>
  \<open>pairs_of\<close> lists the consecutive pairs \<open>(0,1), (2,3), \<dots>\<close> of a list, and
  \<open>sentence_of\<close> is the list of retained tokens stored under a sentence id.
\<close>

fun pairs_of :: "'a list \<Rightarrow> ('a \<times> 'a) list" where
  "pairs_of (a # b # rest) = (a, b) # pairs_of rest"
| "pairs_of [a] = []"
| "pairs_of [] = []"

definition sentence_of :: "(int \<times> 'v list) list \<Rightarrow> int \<Rightarrow> 'v list" where
  "sentence_of sentences_data k = (case map_of sentences_data k of None \<Rightarrow> [] | Some l \<Rightarrow> l)"

text \<open>
  The identifiers of the failing pairs of a sentence map under a verdict on two token
  lists: the pairs of the sorted ids, filtered by the verdict, formatted.
\<close>

definition failing_pair_ids ::
  "('v list \<Rightarrow> 'v list \<Rightarrow> bool) \<Rightarrow> (int \<times> 'v list) list \<Rightarrow> string list" where
  "failing_pair_ids verdict sentences_data =
     map (\<lambda>p. pair_id (fst p) (snd p))
       (filter (\<lambda>p. verdict (sentence_of sentences_data (fst p)) (sentence_of sentences_data (snd p)))
          (pairs_of (sort (map fst sentences_data))))"

text \<open>
  The INV verdict in the words of the specification: some gold label is present in both
  maps with different system labels.
\<close>

definition inv_fails_spec :: "(string \<times> string) list \<Rightarrow> (string \<times> string) list \<Rightarrow> bool" where
  "inv_fails_spec A B =
     (\<exists>g sa sb. map_of (dict_of A) g = Some sa \<and> map_of (dict_of B) g = Some sb \<and> sa \<noteq> sb)"

text \<open>
  The INV verdict over the tokens of the first sentence: some retained token of \<open>A\<close>
  has its gold label in the map of \<open>B\<close>, with another system label there.
\<close>

definition inv_fails_tokens :: "(string \<times> string) list \<Rightarrow> (string \<times> string) list \<Rightarrow> bool" where
  "inv_fails_tokens A B =
     (\<exists>(g, s) \<in> set A. \<exists>sb. map_of (dict_of B) g = Some sb \<and> s \<noteq> sb)"

text \<open>
  The DIR verdict in the words of the specification: some token text is present in both
  maps with the same system label.
\<close>

definition dir_fails_spec ::
  "(string \<times> string \<times> string) list \<Rightarrow> (string \<times> string \<times> string) list \<Rightarrow> bool" where
  "dir_fails_spec A B =
     (\<exists>t ga gb s. map_of (dict_of A) t = Some (ga, s) \<and> map_of (dict_of B) t = Some (gb, s))"

subsection \<open>Predicates used in the proofs\<close>

text \<open>
  \<open>mismatch file s\<close>: some row of the file with sentence id \<open>s\<close> has a gold label
  other than \<^verbatim>\<open>_\<close> that differs from its system label. \<open>mft_inv\<close> is the invariant of
  the loop of \<^verbatim>\<open>evaluate_mft\<close>: a cleared flag and a recorded failure both come from
  such a row.
\<close>

definition mismatch :: "string list \<Rightarrow> string \<Rightarrow> bool" where
  "mismatch file s =
     (\<exists>line \<in> set file. \<exists>r. strip line \<noteq> [] \<and> unpack_row line = Inr r \<and> sentence_id r = s
        \<and> gold_label r \<noteq> ''_'' \<and> gold_label r \<noteq> system_label r)"

definition mft_inv :: "string list \<Rightarrow> mft_state \<Rightarrow> bool" where
  "mft_inv file st =
     ((\<not> sentence_labels_match st
         \<longrightarrow> (\<exists>c. current_sentence_id st = Some c \<and> mismatch file c))
      \<and> (\<forall>x \<in> set (failed_sentence_ids st). mismatch file x))"

subsection \<open>Example files for the MFT scorer\<close>

text \<open>
  Fifty one-token sentences, numbered 1 to 50 and each followed by an empty line, as
  prediction.py writes them; the system label differs from the gold label in the
  first 29 of them.
\<close>

definition mft_file_50 :: "string list" where
  "mft_file_50 =
     concat (map (\<lambda>i. [write_row (str_int i) ''1'' ''w'' ''ARG0''
                           (if i \<le> 29 then ''ARG1'' else ''ARG0''),
                        [NEWLINE]]) [1..50])"

text \<open>
  Sentence 1 (mismatching) directly followed by sentence 2 (matching), with one blank
  line at the end only.
\<close>

definition unseparated_file :: "string list" where
  "unseparated_file =
     [write_row ''1'' ''1'' ''a'' ''A'' ''B'', write_row ''2'' ''1'' ''b'' ''A'' ''A'', [NEWLINE]]"

text \<open>The same with both sentences mismatching.\<close>

definition unseparated_failures_file :: "string list" where
  "unseparated_failures_file =
     [write_row ''1'' ''1'' ''a'' ''A'' ''B'', write_row ''2'' ''1'' ''b'' ''A'' ''B'', [NEWLINE]]"

text \<open>Sentence 1 (matching), a blank line, sentence 2 (mismatching), a blank line.\<close>

definition two_sentence_file :: "string list" where
  "two_sentence_file =
     [write_row ''1'' ''1'' ''a'' ''A'' ''A'', [NEWLINE],
      write_row ''2'' ''1'' ''b'' ''A'' ''B'', [NEWLINE]]"

text \<open>The same two sentences followed by a third one.\<close>

definition three_sentence_file :: "string list" where
  "three_sentence_file =
     [write_row ''1'' ''1'' ''a'' ''A'' ''A'', [NEWLINE],
      write_row ''2'' ''1'' ''b'' ''A'' ''B'', [NEWLINE],
      write_row ''3'' ''1'' ''c'' ''A'' ''A'', [NEWLINE]]"

text \<open>A single row whose gold label is \<^verbatim>\<open>_\<close>, with no blank line after it.\<close>

definition blank_gold_file :: "string list" where
  "blank_gold_file = [write_row ''1'' ''1'' ''a'' ''_'' ''X'']"

text \<open>One sentence whose id is not a number.\<close>

definition non_numeric_file :: "string list" where
  "non_numeric_file = [write_row ''s1'' ''1'' ''a'' ''A'' ''A'', [NEWLINE]]"

subsection \<open>Example files for the pair scorers\<close>

text \<open>
  Sentences 10 and 11 with the same gold label and different system labels, then
  sentences 12 and 13 that agree.
\<close>

definition inv_example_file :: "string list" where
  "inv_example_file =
     [write_row ''10'' ''1'' ''dog'' ''ARG0'' ''ARG0'', [NEWLINE],
      write_row ''11'' ''1'' ''cat'' ''ARG0'' ''ARG1'', [NEWLINE],
      write_row ''12'' ''1'' ''dog'' ''ARG0'' ''ARG0'', [NEWLINE],
      write_row ''13'' ''1'' ''cat'' ''ARG0'' ''ARG0'', [NEWLINE]]"

text \<open>
  Sentence 1 has two tokens with gold label ARG0, labelled ARG1 and ARG0 by the system;
  sentence 2 has one token with gold label ARG0, labelled ARG0.
\<close>

definition inv_repeat_file :: "string list" where
  "inv_repeat_file =
     [write_row ''1'' ''1'' ''big'' ''ARG0'' ''ARG1'',
      write_row ''1'' ''2'' ''dog'' ''ARG0'' ''ARG0'', [NEWLINE],
      write_row ''2'' ''1'' ''cat'' ''ARG0'' ''ARG0'', [NEWLINE]]"

text \<open>
  Sentences 0 and 1 share the token \<^verbatim>\<open>ran\<close> with an unchanged system label; in
  sentences 2 and 3 its label changes.
\<close>

definition dir_example_file :: "string list" where
  "dir_example_file =
     [write_row ''0'' ''1'' ''ran'' ''ARG1'' ''ARG1'', [NEWLINE],
      write_row ''1'' ''1'' ''ran'' ''ARG1'' ''ARG1'', [NEWLINE],
      write_row ''2'' ''1'' ''ran'' ''ARG1'' ''ARG1'', [NEWLINE],
      write_row ''3'' ''1'' ''ran'' ''ARG1'' ''ARG2'', [NEWLINE]]"

subsection \<open>An example batch\<close>

text \<open>
  The first output directory holds three MFT files, listed out of order; the second of
  them in sorted order is empty. The other two directories are empty.
\<close>

definition example_fs :: filesystem where
  "example_fs =
     \<lparr>listdir = (\<lambda>d. if d = ''datasets/output_M1''
                      then Some [''3_MFT.tsv'', ''1_MFT.tsv'', ''2_MFT.tsv'']
                      else Some []),
      isdir = (\<lambda>p. False),
      open_read = (\<lambda>p. if p = ''datasets/output_M1/1_MFT.tsv'' then Some two_sentence_file
                        else if p = ''datasets/output_M1/2_MFT.tsv'' then Some []
                        else if p = ''datasets/output_M1/3_MFT.tsv'' then Some two_sentence_file
                        else None)\<rparr>"

section \<open>Properties\<close>

subsection \<open>Evaluating the examples\<close>

lemmas float_defs = failure_rate_def round_ratio_def float_overflow_def float_times_def
  float_trunc_def ratio_exponent_def compute_floorlog

lemma strip_newline: "strip [NEWLINE] = []"
  by code_simp

lemma unpack_example_1:
  "unpack_row (write_row ''1'' ''1'' ''a'' ''A'' ''A'')
     = Inr \<lparr>sentence_id = ''1'', token_id = ''1'', token = ''a'', gold_label = ''A'', system_label = ''A''\<rparr>"
  by code_simp

lemma unpack_example_2:
  "unpack_row (write_row ''2'' ''1'' ''b'' ''A'' ''B'')
     = Inr \<lparr>sentence_id = ''2'', token_id = ''1'', token = ''b'', gold_label = ''A'', system_label = ''B''\<rparr>"
  by code_simp

lemma mft_example_result: "evaluate_mft two_sentence_file = Inr (50, [''2''])"
proof -
  have "for_lines mft_line mft_init two_sentence_file
     = Inr \<lparr>current_sentence_id = Some ''2'', sentence_labels_match = True,
            total_sentences = 2, failed_sentences = 1, failed_sentence_ids = [''2'']\<rparr>"
    by code_simp
  then show ?thesis
    unfolding evaluate_mft_def by (simp add: bind_err_def float_defs)
qed

lemma keyed_example_inv:
  "for_lines (keyed_line inv_keep) [] three_sentence_file
   = Inr [(1, [(''A'', ''A'')]), (2, [(''A'', ''B'')]), (3, [(''A'', ''A'')])]"
  by code_simp

lemma keyed_example_dir:
  "for_lines (keyed_line dir_keep) [] three_sentence_file
   = Inr [(1, [(''a'', ''A'', ''A'')]), (2, [(''b'', ''A'', ''B'')]), (3, [(''c'', ''A'', ''A'')])]"
  by code_simp

lemma mft_blank_gold_only:
  "for_lines mft_line mft_init blank_gold_file
   = Inr \<lparr>current_sentence_id = Some ''1'', sentence_labels_match = True,
          total_sentences = 0, failed_sentences = 0, failed_sentence_ids = []\<rparr>"
  by code_simp

lemma keyed_blank_gold_only:
  "for_lines (keyed_line inv_keep) [] blank_gold_file = Inr []"
  "for_lines (keyed_line dir_keep) [] blank_gold_file = Inr []"
  by code_simp+

lemma non_numeric_example:
  "unpack_row (write_row ''s1'' ''1'' ''a'' ''A'' ''A'')
     = Inr \<lparr>sentence_id = ''s1'', token_id = ''1'', token = ''a'', gold_label = ''A'', system_label = ''A''\<rparr>"
  "strip (write_row ''s1'' ''1'' ''a'' ''A'' ''A'') \<noteq> []"
  "py_int ''s1'' = None"
  by code_simp+

subsection \<open>Loops over the lines of a file\<close>

lemma for_lines_append:
  "for_lines body st (xs @ ys) =
     (case for_lines body st xs of Inl e \<Rightarrow> Inl e | Inr st' \<Rightarrow> for_lines body st' ys)"
  by (induction xs arbitrary: st) (auto split: sum.splits)

lemma for_lines_invariant:
  "for_lines body st ls = Inr st' \<Longrightarrow> P st
   \<Longrightarrow> (\<And>s l s'. P s \<Longrightarrow> l \<in> set ls \<Longrightarrow> body s l = Inr s' \<Longrightarrow> P s')
   \<Longrightarrow> P st'"
proof (induction ls arbitrary: st)
  case Nil
  then show ?case by simp
next
  case (Cons l ls)
  from Cons.prems(1) obtain s1 where s1: "body st l = Inr s1" "for_lines body s1 ls = Inr st'"
    by (auto split: sum.splits)
  have "P s1" using Cons.prems(2,3) s1(1) by (meson list.set_intros(1))
  then show ?case using Cons.IH[OF s1(2)] Cons.prems(3) by (meson list.set_intros(2))
qed

subsection \<open>The MFT scorer\<close>

lemma mft_line_inv:
  assumes "mft_inv file st" "line \<in> set file" "mft_line st line = Inr st'"
  shows "mft_inv file st'"
proof (cases "strip line = []")
  case True
  then show ?thesis using assms
    by (auto simp: mft_line_def mft_inv_def mft_record_failure_def split: option.splits if_splits)
next
  case False
  then obtain r where r: "unpack_row line = Inr r"
    using assms(3) by (auto simp: mft_line_def bind_err_def split: sum.splits)
  have m: "gold_label r \<noteq> ''_'' \<and> gold_label r \<noteq> system_label r \<Longrightarrow> mismatch file (sentence_id r)"
    using False r assms(2) unfolding mismatch_def by blast
  show ?thesis using assms(1,3) False r m
    by (auto simp: mft_line_def mft_inv_def mft_record_failure_def bind_err_def Let_def split: option.splits if_splits)
qed

text \<open>
  Two facts about the counter \<^verbatim>\<open>total_sentences\<close>: a row that starts another sentence
  leaves it unchanged, and a blank line at the end of a file that has a current
  sentence adds one.
\<close>

lemma mft_line_id_change:
  "strip line \<noteq> [] \<Longrightarrow> unpack_row line = Inr r \<Longrightarrow> current_sentence_id st = Some c
   \<Longrightarrow> sentence_id r \<noteq> c
   \<Longrightarrow> \<exists>st'. mft_line st line = Inr st' \<and> total_sentences st' = total_sentences st
         \<and> current_sentence_id st' = Some (sentence_id r)"
  by (auto simp: mft_line_def bind_err_def mft_record_failure_def Let_def)

lemma mft_trailing_blank_counts:
  "for_lines mft_line mft_init ls = Inr st \<Longrightarrow> current_sentence_id st = Some c
   \<Longrightarrow> strip b = []
   \<Longrightarrow> \<exists>st'. for_lines mft_line mft_init (ls @ [b]) = Inr st'
         \<and> total_sentences st' = total_sentences st + 1"
  by (auto simp: for_lines_append mft_line_def mft_record_failure_def)

text \<open>
  Claim C9. For every MFT input on which \<^verbatim>\<open>evaluate_mft\<close> returns, a sentence id \<open>s\<close>
  all of whose rows have a gold label equal to the system label or equal to \<^verbatim>\<open>_\<close> is
  not in the returned list of failed ids. A sentence without any row whose gold label
  differs from \<^verbatim>\<open>_\<close> is a special case.
\<close>

theorem mft_matching_sentence_never_failed:
  assumes "evaluate_mft file = Inr (rate, failed_ids)"
    and "\<forall>line \<in> set file. \<forall>r. strip line \<noteq> [] \<longrightarrow> unpack_row line = Inr r
           \<longrightarrow> sentence_id r = s \<longrightarrow> gold_label r = ''_'' \<or> gold_label r = system_label r"
  shows "s \<notin> set failed_ids"
proof -
  from assms(1) obtain st where st: "for_lines mft_line mft_init file = Inr st"
    and ids: "failed_ids = failed_sentence_ids st"
    by (auto simp: evaluate_mft_def bind_err_def split: sum.splits)
  have "mft_inv file st"
  proof (rule for_lines_invariant[OF st, where P = "mft_inv file"])
    show "mft_inv file mft_init" by (simp add: mft_inv_def mft_init_def)
  qed (rule mft_line_inv)
  then have "\<forall>x \<in> set failed_ids. mismatch file x" by (simp add: mft_inv_def ids)
  moreover have "\<not> mismatch file s" using assms(2) unfolding mismatch_def by blast
  ultimately show ?thesis by blast
qed

theorem mft_matching_sentence_never_failed_witness:
  "evaluate_mft two_sentence_file = Inr (50, [''2'']) \<and> ''1'' \<notin> set [''2'']"
proof -
  have h: "\<forall>line \<in> set two_sentence_file.
         \<forall>r. strip line \<noteq> [] \<longrightarrow> unpack_row line = Inr r
           \<longrightarrow> sentence_id r = ''1'' \<longrightarrow> gold_label r = ''_'' \<or> gold_label r = system_label r"
    by (auto simp: two_sentence_file_def strip_newline unpack_example_1 unpack_example_2)
  show ?thesis
    using mft_matching_sentence_never_failed[OF mft_example_result h] mft_example_result
    by simp
qed

text \<open>
  Claim C2. The claim: in \<^verbatim>\<open>evaluate_mft\<close>, whenever a sentence ends, at a blank line or
  at a row whose sentence id differs from the current one, the sentence is finalized:
  the total count is incremented and, if a token mismatched, the failure count is
  incremented and the id appended. The code does not increment \<^verbatim>\<open>total_sentences\<close>
  at a change of id. On the file of two one-token sentences 1 (mismatching) and 2
  (matching) with no blank line between them and one blank line at the end, the loop
  ends with \<open>total_sentences = 1\<close> although two sentences ended, and the rate is 100
  instead of 50.
\<close>

theorem mft_id_change_leaves_total:
  "for_lines mft_line mft_init unseparated_file
     = Inr \<lparr>current_sentence_id = Some ''2'', sentence_labels_match = True,
            total_sentences = 1, failed_sentences = 1, failed_sentence_ids = [''1'']\<rparr>
   \<and> evaluate_mft unseparated_file = Inr (100, [''1''])"
proof -
  have loop: "for_lines mft_line mft_init unseparated_file
     = Inr \<lparr>current_sentence_id = Some ''2'', sentence_labels_match = True,
            total_sentences = 1, failed_sentences = 1, failed_sentence_ids = [''1'']\<rparr>"
    by code_simp
  then show ?thesis
    unfolding evaluate_mft_def by (simp add: bind_err_def float_defs)
qed

text \<open>
  Claim C8. The claim: each scorer returns the same rate and the same failed
  identifiers whether or not the input ends with a blank line after the last sentence.
  \<^verbatim>\<open>evaluate_mft\<close> counts a sentence only at a blank line and does nothing at the end
  of the file: for sentence 1 (matching), a blank line, and sentence 2 (mismatching),
  it returns \<open>(0, [])\<close> without the final blank line and \<open>(50, [2])\<close> with it.
\<close>

theorem mft_trailing_blank_line_matters:
  "evaluate_mft (butlast two_sentence_file) = Inr (0, [])
   \<and> evaluate_mft two_sentence_file = Inr (50, [''2''])
   \<and> last two_sentence_file = [NEWLINE]"
proof -
  have without: "for_lines mft_line mft_init (butlast two_sentence_file)
     = Inr \<lparr>current_sentence_id = Some ''2'', sentence_labels_match = False,
            total_sentences = 1, failed_sentences = 0, failed_sentence_ids = []\<rparr>"
    by code_simp
  have "evaluate_mft (butlast two_sentence_file) = Inr (0, [])"
    unfolding evaluate_mft_def without by (simp add: bind_err_def float_defs)
  then show ?thesis
    by (simp add: mft_example_result) (simp add: two_sentence_file_def)
qed

subsection \<open>Reading the keyed sentence map\<close>

lemma store_token_eq:
  "store_token sid x sd =
     Inr (AList.update sid ((case map_of sd sid of None \<Rightarrow> [] | Some l \<Rightarrow> l) @ [x]) sd)"
  by (auto simp: store_token_def getitem_def bind_err_def update_conv' update_triv split: option.splits)

lemma keyed_line_blank: "strip line = [] \<Longrightarrow> keyed_line keep sd line = Inr sd"
  by (simp add: keyed_line_def)

lemma unpack_row_error: "unpack_row line = Inl e \<Longrightarrow> e = ValueError"
  by (auto simp: unpack_row_def split: list.splits)

lemma keyed_line_error: "keyed_line keep sd line = Inl e \<Longrightarrow> e = ValueError"
  by (auto simp: keyed_line_def bind_err_def store_token_eq dest: unpack_row_error
      split: if_splits sum.splits option.splits)

lemma for_lines_keyed_error: "for_lines (keyed_line keep) sd ls = Inl e \<Longrightarrow> e = ValueError"
  by (induction ls arbitrary: sd) (auto split: sum.splits dest: keyed_line_error)

lemma keyed_line_bad_id:
  "strip line \<noteq> [] \<Longrightarrow> unpack_row line = Inr r \<Longrightarrow> py_int (sentence_id r) = None
   \<Longrightarrow> keyed_line keep sd line = Inl ValueError"
  by (simp add: keyed_line_def bind_err_def)

lemma for_lines_keyed_bad_id:
  "line \<in> set ls \<Longrightarrow> strip line \<noteq> [] \<Longrightarrow> unpack_row line = Inr r
   \<Longrightarrow> py_int (sentence_id r) = None
   \<Longrightarrow> for_lines (keyed_line keep) sd ls = Inl ValueError"
proof (induction ls arbitrary: sd)
  case Nil
  then show ?case by simp
next
  case (Cons l ls)
  show ?case
  proof (cases "keyed_line keep sd l")
    case (Inl e)
    then show ?thesis using keyed_line_error[OF Inl] by simp
  next
    case (Inr sd')
    with Cons.prems keyed_line_bad_id[of l r keep sd] have "line \<in> set ls" by auto
    then show ?thesis using Cons.IH Cons.prems Inr by simp
  qed
qed

lemma for_lines_all_blank_keyed:
  "\<forall>line \<in> set ls. strip line = [] \<Longrightarrow> for_lines (keyed_line keep) sd ls = Inr sd"
  by (induction ls arbitrary: sd) (auto simp: keyed_line_blank)

lemma for_lines_all_blank_mft:
  "\<forall>line \<in> set ls. strip line = [] \<Longrightarrow> for_lines mft_line mft_init ls = Inr mft_init"
  by (induction ls) (auto simp: mft_line_def mft_init_def)

lemma pair_loop_Nil: "pair_loop pf sd [] 0 st = Inr st"
  by (simp add: pair_loop.simps)

lemma evaluate_pairs_no_sentences:
  "for_lines (keyed_line keep) [] ls = Inr [] \<Longrightarrow> evaluate_pairs keep pf ls = ([], Inl ZeroDivisionError)"
  by (simp add: evaluate_pairs_def pair_loop_Nil bind_err_def failure_rate_def)

lemma evaluate_pairs_all_blank:
  "\<forall>line \<in> set ls. strip line = [] \<Longrightarrow> evaluate_pairs keep pf ls = ([], Inl ZeroDivisionError)"
  by (rule evaluate_pairs_no_sentences) (rule for_lines_all_blank_keyed)

lemma mft_line_wellformed:
  "strip line = [] \<or> (\<exists>r. unpack_row line = Inr r) \<Longrightarrow> \<exists>st'. mft_line st line = Inr st'"
  by (auto simp: mft_line_def bind_err_def Let_def split: option.splits)

lemma for_lines_mft_wellformed:
  "\<forall>line \<in> set ls. strip line = [] \<or> (\<exists>r. unpack_row line = Inr r)
   \<Longrightarrow> \<exists>st'. for_lines mft_line st ls = Inr st'"
proof (induction ls arbitrary: st)
  case Nil
  then show ?case by simp
next
  case (Cons l ls)
  then obtain s1 where "mft_line st l = Inr s1" using mft_line_wellformed[of l st] by auto
  then show ?case using Cons by simp
qed

text \<open>
  Claim C10. \<^verbatim>\<open>evaluate_inv\<close> and \<^verbatim>\<open>evaluate_dir\<close> convert the sentence id of every
  non-blank row with \<^verbatim>\<open>int\<close>: a file with a row whose id is not a number makes both
  raise ValueError while reading, before any pairing and without a result.
  \<^verbatim>\<open>evaluate_mft\<close> never converts the id: on a file whose non-blank lines all have five
  fields its loop raises nothing, whatever the ids are.
\<close>

theorem non_numeric_sentence_id:
  "(line \<in> set ls \<and> strip line \<noteq> [] \<and> unpack_row line = Inr r \<and> py_int (sentence_id r) = None
      \<longrightarrow> evaluate_inv ls = ([], Inl ValueError) \<and> evaluate_dir ls = ([], Inl ValueError))
   \<and> ((\<forall>l \<in> set ls. strip l = [] \<or> (\<exists>r. unpack_row l = Inr r))
      \<longrightarrow> (\<exists>st. for_lines mft_line mft_init ls = Inr st))"
  using for_lines_mft_wellformed[of ls mft_init]
  by (auto simp: evaluate_inv_def evaluate_dir_def evaluate_pairs_def for_lines_keyed_bad_id)

theorem non_numeric_sentence_id_witness:
  "evaluate_inv non_numeric_file = ([], Inl ValueError)
   \<and> evaluate_dir non_numeric_file = ([], Inl ValueError)
   \<and> (\<exists>st. for_lines mft_line mft_init non_numeric_file = Inr st)
   \<and> evaluate_mft non_numeric_file = Inr (0, [])"
proof -
  have loop: "for_lines mft_line mft_init non_numeric_file
     = Inr \<lparr>current_sentence_id = Some ''s1'', sentence_labels_match = True,
            total_sentences = 1, failed_sentences = 0, failed_sentence_ids = []\<rparr>"
    by code_simp
  have res: "evaluate_mft non_numeric_file = Inr (0, [])"
    unfolding evaluate_mft_def loop by (simp add: bind_err_def float_defs)
  have h: "\<forall>l \<in> set non_numeric_file. strip l = [] \<or> (\<exists>r. unpack_row l = Inr r)"
    by (simp add: non_numeric_file_def non_numeric_example strip_newline)
  have m: "write_row ''s1'' ''1'' ''a'' ''A'' ''A'' \<in> set non_numeric_file"
    by (simp add: non_numeric_file_def)
  show ?thesis
    using non_numeric_sentence_id
      [of "write_row ''s1'' ''1'' ''a'' ''A'' ''A''" non_numeric_file
        "\<lparr>sentence_id = ''s1'', token_id = ''1'', token = ''a'', gold_label = ''A'', system_label = ''A''\<rparr>"]
      h m non_numeric_example res
    by simp
qed

text \<open>
  Claim C7. When the loop of \<^verbatim>\<open>evaluate_mft\<close> ends with no counted sentence, and when
  the reading loop of \<^verbatim>\<open>evaluate_inv\<close> or \<^verbatim>\<open>evaluate_dir\<close> ends with no retained
  sentence and hence no pair, the scorer raises ZeroDivisionError instead of returning.
  This is so in particular for every file without a non-blank line.
\<close>

theorem empty_input_division_by_zero:
  "(for_lines mft_line mft_init ls = Inr st \<and> total_sentences st = 0
      \<longrightarrow> evaluate_mft ls = Inl ZeroDivisionError)
   \<and> (for_lines (keyed_line inv_keep) [] ls = Inr [] \<longrightarrow> evaluate_inv ls = ([], Inl ZeroDivisionError))
   \<and> (for_lines (keyed_line dir_keep) [] ls = Inr [] \<longrightarrow> evaluate_dir ls = ([], Inl ZeroDivisionError))
   \<and> ((\<forall>line \<in> set ls. strip line = [])
      \<longrightarrow> evaluate_mft ls = Inl ZeroDivisionError
        \<and> evaluate_inv ls = ([], Inl ZeroDivisionError)
        \<and> evaluate_dir ls = ([], Inl ZeroDivisionError))"
proof -
  have a: "evaluate_mft ls = Inl ZeroDivisionError"
    if "for_lines mft_line mft_init ls = Inr st" "total_sentences st = 0" for st
    using that by (simp add: evaluate_mft_def bind_err_def failure_rate_def)
  have b: "evaluate_mft ls = Inl ZeroDivisionError" if "\<forall>line \<in> set ls. strip line = []"
    using a[OF for_lines_all_blank_mft[OF that]] by (simp add: mft_init_def)
  show ?thesis
    using a b
    by (auto simp: evaluate_inv_def evaluate_dir_def evaluate_pairs_no_sentences
        evaluate_pairs_all_blank)
qed

theorem empty_input_division_by_zero_witness:
  "evaluate_mft [] = Inl ZeroDivisionError
   \<and> evaluate_inv [] = ([], Inl ZeroDivisionError)
   \<and> evaluate_dir [] = ([], Inl ZeroDivisionError)
   \<and> evaluate_mft blank_gold_file = Inl ZeroDivisionError
   \<and> evaluate_inv blank_gold_file = ([], Inl ZeroDivisionError)
   \<and> evaluate_dir blank_gold_file = ([], Inl ZeroDivisionError)"
  using empty_input_division_by_zero [of "[]" mft_init]
    empty_input_division_by_zero [of blank_gold_file
      "\<lparr>current_sentence_id = Some ''1'', sentence_labels_match = True,
          total_sentences = 0, failed_sentences = 0, failed_sentence_ids = []\<rparr>"]
  by (simp add: mft_blank_gold_only keyed_blank_gold_only)

lemma keyed_line_distinct:
  "distinct (map fst sd) \<Longrightarrow> keyed_line keep sd line = Inr sd' \<Longrightarrow> distinct (map fst sd')"
  by (auto simp: keyed_line_def bind_err_def store_token_eq distinct_update
      split: if_splits sum.splits option.splits)

lemma for_lines_keyed_distinct:
  "for_lines (keyed_line keep) [] ls = Inr sd \<Longrightarrow> distinct (map fst sd)"
  by (rule for_lines_invariant[where P = "\<lambda>sd. distinct (map fst sd)"]) (auto intro: keyed_line_distinct)

lemma evaluate_pairs_trailing_blank:
  "strip b = [] \<Longrightarrow> evaluate_pairs keep pf (ls @ [b]) = evaluate_pairs keep pf ls"
  by (simp add: evaluate_pairs_def for_lines_append keyed_line_blank split: sum.splits)

subsection \<open>The failure rate\<close>

text \<open>
  What \<open>ratio_exponent\<close> and \<open>round_ratio\<close> compute: the exponent \<open>e\<close> with
  \<open>2 ^ e \<le> a / b < 2 ^ (e + 1)\<close>, and a mantissa \<open>m\<close> at the exponent
  \<open>q = max (e - 52) (-1074)\<close> whose value \<open>m * 2 ^ q\<close> is within half a unit
  \<open>2 ^ q\<close> of the exact quotient, the even mantissa being taken on a tie.
\<close>

lemma floorlog_powi_bounds:
  assumes "0 < a"
  shows "(2::real) powi (int (floorlog 2 a) - 1) \<le> real a" "real a < 2 powi (int (floorlog 2 a))"
proof -
  define k where "k = floorlog 2 a"
  have two: "(1::nat) < 2" by simp
  note fb = floorlog_bounds[OF assms two, folded k_def]
  have "k \<noteq> 0" using floorlog_eq_zero_iff[of 2 a] assms unfolding k_def by simp
  then have pos: "0 < k" by simp
  then obtain j where j: "k = Suc j" by (cases k) auto
  have "real (2 ^ j) \<le> real a" using fb j by (simp only: of_nat_le_iff diff_Suc_1)
  moreover have "(2::real) powi (int k - 1) = real (2 ^ j)" by (simp add: j)
  ultimately show "(2::real) powi (int (floorlog 2 a) - 1) \<le> real a"
    by (simp only: k_def[symmetric])
  have "real a < real (2 ^ k)" using fb by (simp only: of_nat_less_iff)
  moreover have "(2::real) powi (int k) = real (2 ^ k)" by simp
  ultimately show "real a < 2 powi (int (floorlog 2 a))"
    by (simp only: k_def[symmetric])
qed

lemma ratio_exponent_cond:
  assumes "0 < b"
  shows "(if 0 \<le> d then b * 2 ^ nat d \<le> a else b \<le> a * 2 ^ nat (- d))
         \<longleftrightarrow> 2 powi d * real b \<le> real a"
proof (cases "0 \<le> d")
  case True
  have "(b * 2 ^ nat d \<le> a) \<longleftrightarrow> (real (b * 2 ^ nat d) \<le> real a)" by (simp only: of_nat_le_iff)
  also have "real (b * 2 ^ nat d) = 2 powi d * real b" using True by (simp add: power_int_def)
  finally show ?thesis using True by simp
next
  case False
  have p: "(2::real) powi d = 1 / 2 ^ nat (- d)" using False by (simp add: power_int_def power_one_over)
  have "(b \<le> a * 2 ^ nat (- d)) \<longleftrightarrow> (real b \<le> real (a * 2 ^ nat (- d)))" by (simp only: of_nat_le_iff)
  also have "\<dots> \<longleftrightarrow> (real b \<le> real a * 2 ^ nat (- d))" by simp
  also have "\<dots> \<longleftrightarrow> (real b / 2 ^ nat (- d) \<le> real a)" by (simp add: pos_divide_le_eq)
  also have "real b / 2 ^ nat (- d) = 2 powi d * real b" by (simp add: p)
  finally show ?thesis using False by simp
qed

lemma ratio_exponent_bounds:
  assumes "0 < a" "0 < b"
  shows "2 powi (ratio_exponent a b) * real b \<le> real a"
    and "real a < 2 powi (ratio_exponent a b + 1) * real b"
proof -
  define la where "la = int (floorlog 2 a)"
  define lb where "lb = int (floorlog 2 b)"
  define d where "d = la - lb"
  note A = floorlog_powi_bounds[OF assms(1), folded la_def]
  note B = floorlog_powi_bounds[OF assms(2), folded lb_def]
  have "ratio_exponent a b =
      (if (if 0 \<le> d then b * 2 ^ nat d \<le> a else b \<le> a * 2 ^ nat (- d)) then d else d - 1)"
    by (simp only: ratio_exponent_def Let_def d_def la_def lb_def)
  then have e: "ratio_exponent a b = (if 2 powi d * real b \<le> real a then d else d - 1)"
    by (simp only: ratio_exponent_cond[OF assms(2)])
  have up: "real a < 2 powi (d + 1) * real b"
  proof -
    have eq: "la = (d + 1) + (lb - 1)" by (simp add: d_def)
    have "(2::real) powi la = 2 powi (d + 1) * 2 powi (lb - 1)"
      unfolding eq using power_int_add[of "2::real" "d + 1" "lb - 1"] by simp
    also have "\<dots> \<le> 2 powi (d + 1) * real b" using B(1) by (intro mult_left_mono) simp_all
    finally show ?thesis using A(2) by linarith
  qed
  have low: "2 powi (d - 1) * real b \<le> real a"
  proof -
    have "2 powi (d - 1) * real b \<le> 2 powi (d - 1) * 2 powi lb"
      using B(2) by (intro mult_left_mono) simp_all
    also have "\<dots> = 2 powi (la - 1)"
    proof -
      have eq: "la - 1 = (d - 1) + lb" by (simp add: d_def)
      show ?thesis unfolding eq using power_int_add[of "2::real" "d - 1" lb] by simp
    qed
    finally show ?thesis using A(1) by linarith
  qed
  show "2 powi (ratio_exponent a b) * real b \<le> real a" using e low by auto
  show "real a < 2 powi (ratio_exponent a b + 1) * real b"
    using e up by (auto simp: not_le)
qed

lemma round_ratio_unfold:
  assumes "0 < a" "round_ratio a b = (m, q)"
  shows "q = max (ratio_exponent a b - 52) (- 1074)"
    and "m = (let n = (if 0 \<le> q then a else a * 2 ^ nat (- q));
                  dn = (if 0 \<le> q then b * 2 ^ nat q else b);
                  m0 = n div dn; r = n mod dn
              in if 2 * r < dn then m0 else if dn < 2 * r then m0 + 1
                 else if even m0 then m0 else m0 + 1)"
proof -
  show q: "q = max (ratio_exponent a b - 52) (- 1074)"
    using assms by (simp add: round_ratio_def Let_def)
  have "fst (round_ratio a b) = m" using assms(2) by simp
  then show "m = (let n = (if 0 \<le> q then a else a * 2 ^ nat (- q));
                  dn = (if 0 \<le> q then b * 2 ^ nat q else b);
                  m0 = n div dn; r = n mod dn
              in if 2 * r < dn then m0 else if dn < 2 * r then m0 + 1
                 else if even m0 then m0 else m0 + 1)"
    using assms(1) unfolding round_ratio_def Let_def q[symmetric] by simp
qed

lemma nearest_quotient:
  fixes n dn :: nat
  assumes "0 < dn"
  defines "m0 \<equiv> n div dn" and "r \<equiv> n mod dn"
  defines "m \<equiv> (if 2 * r < dn then m0 else if dn < 2 * r then m0 + 1
                  else if even m0 then m0 else m0 + 1)"
  shows "\<bar>real m - real n / real dn\<bar> \<le> 1 / 2"
    and "2 * r = dn \<Longrightarrow> even m"
proof -
  have n: "real n = real m0 * real dn + real r"
    unfolding m0_def r_def by (metis div_mult_mod_eq of_nat_add of_nat_mult)
  have r: "r < dn" unfolding r_def using assms(1) by simp
  have q: "real n / real dn = real m0 + real r / real dn"
    using assms(1) by (simp add: n add_divide_distrib)
  have dpos: "0 < real dn" using assms(1) by simp
  have half1: "(2 * r < dn \<longleftrightarrow> real r / real dn < 1 / 2)"
  proof -
    have "(2 * r < dn) \<longleftrightarrow> (2 * real r < real dn)" by (metis of_nat_less_iff of_nat_mult of_nat_numeral)
    also have "\<dots> \<longleftrightarrow> real r / real dn < 1 / 2" using dpos by (simp add: pos_divide_less_eq mult.commute)
    finally show ?thesis .
  qed
  have half2: "(dn < 2 * r \<longleftrightarrow> 1 / 2 < real r / real dn)"
  proof -
    have "(dn < 2 * r) \<longleftrightarrow> (real dn < 2 * real r)" by (metis of_nat_less_iff of_nat_mult of_nat_numeral)
    also have "\<dots> \<longleftrightarrow> 1 / 2 < real r / real dn" using dpos by (simp add: pos_less_divide_eq mult.commute)
    finally show ?thesis .
  qed
  note half = half1 half2
  have le1: "real r / real dn < 1" using r assms(1) by simp
  have ge0: "0 \<le> real r / real dn" by simp
  show "\<bar>real m - real n / real dn\<bar> \<le> 1 / 2"
  proof (cases "2 * r < dn")
    case True
    then show ?thesis using half(1) ge0 by (simp add: m_def q)
  next
    case False
    show ?thesis
    proof (cases "dn < 2 * r")
      case True
      then show ?thesis using half(2) le1 False by (simp add: m_def q)
    next
      case F2: False
      then have "real r / real dn = 1 / 2" using False half by linarith
      then show ?thesis using False F2 by (auto simp: m_def q)
    qed
  qed
  show "even m" if "2 * r = dn" using that by (auto simp: m_def)
qed

lemma round_ratio_nearest:
  assumes "0 < a" "0 < b" "round_ratio a b = (m, q)"
  shows "\<bar>real m * 2 powi q - real a / real b\<bar> \<le> 2 powi q / 2"
proof -
  define n where "n = (if 0 \<le> q then a else a * 2 ^ nat (- q))"
  define dn where "dn = (if 0 \<le> q then b * 2 ^ nat q else b)"
  have dn: "0 < dn" using assms(2) by (simp add: dn_def)
  have m: "m = (if 2 * (n mod dn) < dn then n div dn else if dn < 2 * (n mod dn) then n div dn + 1
                else if even (n div dn) then n div dn else n div dn + 1)"
    using round_ratio_unfold(2)[OF assms(1,3)] by (simp add: Let_def n_def dn_def)
  have near: "\<bar>real m - real n / real dn\<bar> \<le> 1 / 2"
    unfolding m by (rule nearest_quotient(1)[OF dn])
  have scale: "real n / real dn = (real a / real b) / 2 powi q"
  proof (cases "0 \<le> q")
    case True
    then have "(2::real) powi q = 2 ^ nat q" by (simp add: power_int_def)
    then show ?thesis using True by (simp add: n_def dn_def)
  next
    case False
    then have "(2::real) powi q = 1 / 2 ^ nat (- q)"
      by (simp add: power_int_def power_one_over)
    then show ?thesis using False by (simp add: n_def dn_def)
  qed
  have pos: "0 < (2::real) powi q" by simp
  have "\<bar>real m * 2 powi q - real a / real b\<bar> = \<bar>real m - real n / real dn\<bar> * 2 powi q"
  proof -
    have "real m * 2 powi q - real a / real b = (real m - real n / real dn) * 2 powi q"
      using pos by (simp add: scale left_diff_distrib)
    then show ?thesis using pos by (simp add: abs_mult)
  qed
  also have "\<dots> \<le> (1 / 2) * 2 powi q" using near pos by (intro mult_right_mono) simp_all
  finally show ?thesis by simp
qed

text \<open>
  With at most as many failures as counted items the rate is returned and lies
  between 0 and 100; this is the case of \<^verbatim>\<open>evaluate_inv\<close> and \<^verbatim>\<open>evaluate_dir\<close>.
\<close>

lemma ratio_exponent_le:
  assumes "a \<le> 2 ^ k * b" "0 < a"
  shows "ratio_exponent a b \<le> int k"
proof -
  have b: "0 < b" using assms by (cases "b = 0") auto
  have "floorlog 2 a \<le> floorlog 2 (b * 2 ^ k)"
    using assms(1) by (intro floorlog_mono) (simp add: mult.commute)
  also have "\<dots> = floorlog 2 b + k" using b by simp
  finally have "int (floorlog 2 a) - int (floorlog 2 b) \<le> int k" by simp
  then show ?thesis by (simp add: ratio_exponent_def Let_def)
qed

lemma round_ratio_exponent:
  assumes "a \<le> 2 ^ k * b" "0 < a" "k \<le> 52"
  shows "snd (round_ratio a b) \<le> int k - 52" "snd (round_ratio a b) \<le> 0"
proof -
  have "ratio_exponent a b - 52 \<le> int k - 52" using ratio_exponent_le[OF assms(1,2)] by simp
  moreover have "- 1074 \<le> int k - 52" by simp
  ultimately show "snd (round_ratio a b) \<le> int k - 52"
    using assms(2) by (simp add: round_ratio_def Let_def)
  then show "snd (round_ratio a b) \<le> 0" using assms(3) by simp
qed

lemma round_ratio_mantissa:
  assumes "a \<le> K * b" "0 < b" "round_ratio a b = (m, q)" "q \<le> 0"
  shows "m \<le> K * 2 ^ nat (- q)"
proof (cases "a = 0")
  case True
  then show ?thesis using assms(3) by (simp add: round_ratio_def)
next
  case False
  define N :: nat where "N = 2 ^ nat (- q)"
  have q: "q = max (ratio_exponent a b - 52) (- 1074)"
    using assms(3) False by (simp add: round_ratio_def Let_def)
  have n: "(if 0 \<le> q then a else a * 2 ^ nat (- q)) = a * N"
    using assms(4) by (auto simp: N_def)
  have dn: "(if 0 \<le> q then b * 2 ^ nat q else b) = b"
    using assms(4) by auto
  define m0 where "m0 = (a * N) div b"
  define r where "r = (a * N) mod b"
  have m: "m = (if 2 * r < b then m0 else if b < 2 * r then m0 + 1 else if even m0 then m0 else m0 + 1)"
    using assms(3,4) False unfolding round_ratio_def Let_def q[symmetric] m0_def r_def N_def
    by (cases "q = 0") (auto split: if_splits)
  have le: "a * N \<le> (K * N) * b" using assms(1) by (simp add: mult.assoc mult.commute mult_le_mono1 mult.left_commute)
  then have m0le: "m0 \<le> K * N" unfolding m0_def
    using assms(2) by (metis div_le_mono div_mult_self_is_m)
  show ?thesis
  proof (cases "m0 = K * N")
    case True
    have "a * N = m0 * b + r" unfolding m0_def r_def by simp
    with le True have "r = 0" by simp
    then show ?thesis using m True assms(2) by (simp add: N_def)
  next
    case False
    then have "m0 + 1 \<le> K * N" using m0le by simp
    moreover have "m \<le> m0 + 1" using m by simp
    ultimately show ?thesis by (simp add: N_def)
  qed
qed

lemma failure_rate_in_range:
  assumes "nfailed \<le> ntotal" "0 < ntotal"
  shows "\<exists>r. failure_rate nfailed ntotal = Inr r \<and> 0 \<le> r \<and> r \<le> 100"
proof -
  obtain m q where mq: "round_ratio nfailed ntotal = (m, q)" by (cases "round_ratio nfailed ntotal")
  show ?thesis
  proof (cases "nfailed = 0 \<or> m = 0")
    case True
    then have "m = 0" using mq by (auto simp: round_ratio_def)
    then have "round_ratio nfailed ntotal = (0, q)" using mq by simp
    then show ?thesis using assms(2)
      by (auto simp: failure_rate_def float_overflow_def float_times_def float_trunc_def round_ratio_def Let_def)
  next
    case False
    then have pos: "0 < nfailed" "0 < m" by auto
    have le1: "nfailed \<le> 2 ^ 0 * ntotal" using assms(1) by simp
    have q: "q \<le> - 52" using round_ratio_exponent(1)[OF le1 pos(1)] mq by simp
    have m: "m \<le> 2 ^ nat (- q)"
      using round_ratio_mantissa[of nfailed 1 ntotal m q] assms mq q by simp
    have no1: "\<not> float_overflow (m, q)" using q by (simp add: float_overflow_def)
    obtain m' q' where mq': "round_ratio (m * 100) (2 ^ nat (- q)) = (m', q')"
      by (cases "round_ratio (m * 100) (2 ^ nat (- q))")
    have prod: "float_times (m, q) 100 = (m', q')" using q mq' by (simp add: float_times_def)
    have le2: "m * 100 \<le> 2 ^ 7 * 2 ^ nat (- q)" using m by simp
    have q': "q' \<le> - 45" using round_ratio_exponent(1)[OF le2] pos(2) mq' by simp
    have m': "m' \<le> 100 * 2 ^ nat (- q')"
      using round_ratio_mantissa[of "m * 100" 100 "2 ^ nat (- q)" m' q'] m mq' q' by simp
    have no2: "\<not> float_overflow (m', q')" using q' by (simp add: float_overflow_def)
    have "m' div 2 ^ nat (- q') \<le> 100"
      using m' by (metis div_le_mono div_mult_self_is_m zero_less_numeral zero_less_power)
    then have "float_trunc (m', q') \<le> 100" "0 \<le> float_trunc (m', q')"
      using q' by (simp_all add: float_trunc_def)
    then show ?thesis using assms(2) mq no1 prod no2 by (simp add: failure_rate_def Let_def)
  qed
qed

text \<open>
  Claim C5. The claim: the returned rate equals \<open>floor (100 * failed / total)\<close>, an
  integer between 0 and 100, for the three scorers alike. The code computes
  \<^verbatim>\<open>int((failed / total) * 100)\<close> in binary64 arithmetic: for 29 failed sentences out
  of 50 the quotient is the float below 0.58, the product is the float below 58, and
  the truncation is 57, while \<open>floor (100 * 29 / 50) = 58\<close>. In \<^verbatim>\<open>evaluate_mft\<close> the
  rate can also exceed 100: two mismatching sentences with no blank line between them
  count as two failures of one sentence, and the rate is 200.
\<close>

theorem mft_rate_29_of_50_is_57:
  "evaluate_mft mft_file_50 = Inr (57, map str_int [1..29])
   \<and> (100 * 29) div 50 = (58 :: int)
   \<and> evaluate_mft unseparated_failures_file = Inr (200, [''1'', ''2''])"
proof -
  have loop: "for_lines mft_line mft_init mft_file_50 =
     Inr \<lparr>current_sentence_id = Some ''50'', sentence_labels_match = True,
          total_sentences = 50, failed_sentences = 29,
          failed_sentence_ids = map str_int [1..29]\<rparr>"
    by code_simp
  have loop2: "for_lines mft_line mft_init unseparated_failures_file =
     Inr \<lparr>current_sentence_id = Some ''2'', sentence_labels_match = True,
          total_sentences = 1, failed_sentences = 2, failed_sentence_ids = [''1'', ''2'']\<rparr>"
    by code_simp
  show ?thesis
    unfolding evaluate_mft_def loop loop2 by (simp add: bind_err_def float_defs)
qed

subsection \<open>The loop over the sentence pairs\<close>

lemma getitem_key: "k \<in> fst ` set sd \<Longrightarrow> \<exists>v. getitem sd k = Inr v"
  by (cases "map_of sd k") (auto simp: getitem_def map_of_eq_None_iff)

lemma pair_loop_odd:
  "odd (length ids) \<Longrightarrow> even i \<Longrightarrow> i \<le> length ids \<Longrightarrow> set ids \<subseteq> fst ` set sd
   \<Longrightarrow> pair_loop pf sd ids i st = Inl IndexError"
proof (induction pf sd ids i st rule: pair_loop.induct)
  case (1 pf sd ids i st)
  have ne: "i \<noteq> length ids" using "1.prems" by auto
  show ?case
  proof (cases "i < length ids")
    case False
    then show ?thesis using ne "1.prems" by simp
  next
    case True
    then obtain a where a: "getitem sd (ids ! i) = Inr a"
      using getitem_key[of "ids ! i" sd] "1.prems"(4) by (meson nth_mem subsetD)
    show ?thesis
    proof (cases "i + 1 < length ids")
      case False
      then show ?thesis using True a by (subst pair_loop.simps) simp
    next
      case t2: True
      then obtain b where b: "getitem sd (ids ! (i + 1)) = Inr b"
        using getitem_key[of "ids ! (i + 1)" sd] "1.prems"(4) by (meson nth_mem subsetD)
      obtain t f fi where st: "st = (t, f, fi)" by (cases st) auto
      have "pair_loop pf sd ids (i + 2)
              (if pf a b then (t + 1, f + 1, fi @ [pair_id (ids ! i) (ids ! (i + 1))])
               else (t + 1, f, fi)) = Inl IndexError"
        using "1.IH"[OF True a t2 b st[symmetric] refl] "1.prems" t2 by (auto split: if_splits)
      then show ?thesis using True t2 a b st by (subst pair_loop.simps) simp
    qed
  qed
qed


lemma evaluate_pairs_odd:
  assumes "for_lines (keyed_line keep) [] ls = Inr sd" "odd (length sd)"
  shows "evaluate_pairs keep pf ls = ([Warning_uneven], Inl IndexError)"
proof -
  have "pair_loop pf sd (sort (map fst sd)) 0 (0, 0, []) = Inl IndexError"
    by (rule pair_loop_odd) (use assms(2) in auto)
  then show ?thesis using assms
    by (simp add: evaluate_pairs_def bind_err_def Let_def odd_iff_mod_2_eq_one)
qed

text \<open>
  Claim C1. The claim: with an odd number of retained sentences \<^verbatim>\<open>evaluate_inv\<close> and
  \<^verbatim>\<open>evaluate_dir\<close> warn, drop the last sentence and still return a rate and a list.
  The code prints the warning, but \<^verbatim>\<open>range(0, len(sentence_ids), 2)\<close> still reaches
  the last index, where \<^verbatim>\<open>sentence_ids[i+1]\<close> raises IndexError: for every input that
  is read without error and retains an odd number of sentences, both scorers print the
  warning and raise IndexError.
\<close>

theorem odd_sentence_count_raises_IndexError:
  "(for_lines (keyed_line inv_keep) [] ls = Inr sd \<and> odd (length sd)
      \<longrightarrow> evaluate_inv ls = ([Warning_uneven], Inl IndexError))
   \<and> (for_lines (keyed_line dir_keep) [] ls = Inr sd' \<and> odd (length sd')
      \<longrightarrow> evaluate_dir ls = ([Warning_uneven], Inl IndexError))"
  by (simp add: evaluate_inv_def evaluate_dir_def evaluate_pairs_odd)

theorem odd_sentence_count_raises_IndexError_witness:
  "evaluate_inv three_sentence_file = ([Warning_uneven], Inl IndexError)
   \<and> evaluate_dir three_sentence_file = ([Warning_uneven], Inl IndexError)"
  using odd_sentence_count_raises_IndexError
    [of three_sentence_file
        "[(1, [(''A'', ''A'')]), (2, [(''A'', ''B'')]), (3, [(''A'', ''A'')])]"
        "[(1, [(''a'', ''A'', ''A'')]), (2, [(''b'', ''A'', ''B'')]), (3, [(''c'', ''A'', ''A'')])]"]
  by (simp add: keyed_example_inv keyed_example_dir)

lemma map_of_foldl_update:
  "map_of (foldl (\<lambda>d kv. AList.update (fst kv) (snd kv) d) d kvs) = map_of d ++ map_of (rev kvs)"
proof (induction kvs arbitrary: d)
  case Nil
  then show ?case by simp
next
  case (Cons kv kvs)
  have "map_of (AList.update (fst kv) (snd kv) d) ++ map_of (rev kvs)
      = map_of d ++ (map_of [kv] ++ map_of (rev kvs))"
    by (cases kv) (simp add: update_conv' map_add_def fun_eq_iff split: option.splits)
  then show ?case using Cons.IH by simp
qed

lemma map_of_dict_of: "map_of (dict_of kvs) = map_of (rev kvs)"
  by (simp add: dict_of_def map_of_foldl_update)

lemma distinct_foldl_update:
  "distinct (map fst d)
   \<Longrightarrow> distinct (map fst (foldl (\<lambda>d kv. AList.update (fst kv) (snd kv) d) d kvs))"
  by (induction kvs arbitrary: d) (simp_all add: distinct_update)

lemma distinct_dict_of: "distinct (map fst (dict_of kvs))"
  by (simp add: dict_of_def distinct_foldl_update)

lemma dom_dict_of: "map_of (dict_of kvs) k = None \<longleftrightarrow> k \<notin> fst ` set kvs"
  by (simp add: map_of_dict_of map_of_eq_None_iff)

lemma inv_scan_iff:
  "inv_scan m xs \<longleftrightarrow> (\<exists>(g, s) \<in> set xs. \<exists>s'. map_of m g = Some s' \<and> s \<noteq> s')"
  by (induction m xs rule: inv_scan.induct) auto

lemma dir_scan_iff:
  "dir_scan m xs \<longleftrightarrow> (\<exists>(t, g, s) \<in> set xs. \<exists>g'. map_of m t = Some (g', s))"
  by (induction m xs rule: dir_scan.induct) (auto split: option.splits)

lemma inv_pair_failed_iff:
  "inv_pair_failed A B \<longleftrightarrow> (\<exists>(g, s) \<in> set A. \<exists>s'. map_of (dict_of B) g = Some s' \<and> s \<noteq> s')"
  by (simp add: inv_pair_failed_def inv_scan_iff)

lemma dir_pair_failed_iff:
  "dir_pair_failed A B \<longleftrightarrow>
     (\<exists>t ga gb s. map_of (dict_of A) t = Some (ga, s) \<and> map_of (dict_of B) t = Some (gb, s))"
proof -
  have "(t, g, s) \<in> set (dict_of A) \<longleftrightarrow> map_of (dict_of A) t = Some (g, s)" for t g s
    using distinct_dict_of[of A] by simp
  then have "dir_scan (dict_of B) (dict_of A) \<longleftrightarrow>
     (\<exists>t ga gb s. map_of (dict_of A) t = Some (ga, s) \<and> map_of (dict_of B) t = Some (gb, s))"
    unfolding dir_scan_iff by (simp add: Bex_def) blast
  then show ?thesis by (simp add: dir_pair_failed_def)
qed

lemma getitem_sentence_of: "k \<in> fst ` set sd \<Longrightarrow> getitem sd k = Inr (sentence_of sd k)"
  by (cases "map_of sd k") (auto simp: getitem_def sentence_of_def map_of_eq_None_iff)

lemma drop_two:
  "i + 1 < length ids \<Longrightarrow> drop i ids = ids ! i # ids ! (i + 1) # drop (i + 2) ids"
  by (metis Cons_nth_drop_Suc Suc_eq_plus1 Suc_lessD add_2_eq_Suc')

lemma pair_loop_even:
  "even (length ids) \<Longrightarrow> even i \<Longrightarrow> i \<le> length ids \<Longrightarrow> set ids \<subseteq> fst ` set sd
   \<Longrightarrow> pair_loop pf sd ids i st =
       Inr (fst st + length (pairs_of (drop i ids)),
            fst (snd st) + length (filter (\<lambda>p. pf (sentence_of sd (fst p)) (sentence_of sd (snd p)))
                                     (pairs_of (drop i ids))),
            snd (snd st) @ map (\<lambda>p. pair_id (fst p) (snd p))
                             (filter (\<lambda>p. pf (sentence_of sd (fst p)) (sentence_of sd (snd p)))
                                (pairs_of (drop i ids))))"
proof (induction pf sd ids i st rule: pair_loop.induct)
  case (1 pf sd ids i st)
  show ?case
  proof (cases "i < length ids")
    case False
    then show ?thesis using "1.prems" by (subst pair_loop.simps) simp
  next
    case True
    then have t2: "i + 1 < length ids" using "1.prems"(1,2) by (metis Suc_eq_plus1 Suc_lessI even_Suc)
    have a: "getitem sd (ids ! i) = Inr (sentence_of sd (ids ! i))"
      using getitem_sentence_of "1.prems"(4) True by (meson nth_mem subsetD)
    have b: "getitem sd (ids ! (i + 1)) = Inr (sentence_of sd (ids ! (i + 1)))"
      using getitem_sentence_of "1.prems"(4) t2 by (meson nth_mem subsetD)
    obtain t f fi where st: "st = (t, f, fi)" by (cases st) auto
    note IH = "1.IH"[OF True a t2 b st[symmetric] refl]
    have prems': "even (i + 2)" "i + 2 \<le> length ids" using "1.prems" t2 by auto
    show ?thesis
      using True t2 a b st IH[OF "1.prems"(1) prems' "1.prems"(4)] drop_two[OF t2]
      by (subst pair_loop.simps) (simp split: if_splits)
  qed
qed

lemma length_pairs_of: "length (pairs_of xs) = length xs div 2"
  by (induction xs rule: pairs_of.induct) auto

lemma evaluate_pairs_even:
  assumes "for_lines (keyed_line keep) [] ls = Inr sd" "even (length sd)" "sd \<noteq> []"
  shows "\<exists>rate. evaluate_pairs keep pf ls = ([], Inr (rate, failing_pair_ids pf sd))
           \<and> 0 \<le> rate \<and> rate \<le> 100"
proof -
  define ids where "ids = sort (map fst sd)"
  define F where "F = filter (\<lambda>p. pf (sentence_of sd (fst p)) (sentence_of sd (snd p))) (pairs_of ids)"
  have loop: "pair_loop pf sd ids 0 (0, 0, []) =
      Inr (length (pairs_of ids), length F, map (\<lambda>p. pair_id (fst p) (snd p)) F)"
    using pair_loop_even[of ids 0 sd pf "(0, 0, [])"] assms(2) by (simp add: ids_def F_def)
  have "length sd \<ge> 2" using assms(2,3) by (cases sd rule: pairs_of.cases) auto
  then have pos: "0 < length (pairs_of ids)" by (simp add: length_pairs_of ids_def)
  have le: "length F \<le> length (pairs_of ids)" by (simp add: F_def)
  obtain r where r: "failure_rate (length F) (length (pairs_of ids)) = Inr r" "0 \<le> r" "r \<le> 100"
    using failure_rate_in_range[OF le pos] by blast
  have ev: "length ids mod 2 = 0" using assms(2) by (simp add: ids_def even_iff_mod_2_eq_zero)
  show ?thesis
    using assms(1) loop r ev
    by (simp add: evaluate_pairs_def bind_err_def Let_def ids_def[symmetric] failing_pair_ids_def F_def)
qed

lemma inv_pair_failed_tokens: "inv_pair_failed A B \<longleftrightarrow> inv_fails_tokens A B"
  by (simp add: inv_pair_failed_iff inv_fails_tokens_def)

lemma inv_tokens_spec:
  assumes "\<forall>(g, s) \<in> set A. map_of (dict_of A) g = Some s"
  shows "inv_fails_tokens A B \<longleftrightarrow> inv_fails_spec A B"
proof
  assume "inv_fails_tokens A B"
  then obtain g s sb where "(g, s) \<in> set A" "map_of (dict_of B) g = Some sb" "s \<noteq> sb"
    by (auto simp: inv_fails_tokens_def)
  then show "inv_fails_spec A B" using assms unfolding inv_fails_spec_def by blast
next
  assume "inv_fails_spec A B"
  then obtain g sa sb where g: "map_of (dict_of A) g = Some sa" "map_of (dict_of B) g = Some sb" "sa \<noteq> sb"
    by (auto simp: inv_fails_spec_def)
  then have "(g, sa) \<in> set A" using map_of_SomeD[of "rev A" g sa] by (simp add: map_of_dict_of)
  then show "inv_fails_tokens A B" using g unfolding inv_fails_tokens_def by blast
qed

lemma dir_pair_failed_spec: "dir_pair_failed A B \<longleftrightarrow> dir_fails_spec A B"
  by (simp add: dir_pair_failed_iff dir_fails_spec_def)

lemma dir_no_common_token:
  assumes "fst ` set A \<inter> fst ` set B = {}"
  shows "\<not> dir_fails_spec A B"
proof
  assume "dir_fails_spec A B"
  then obtain t ga gb s where "map_of (dict_of A) t = Some (ga, s)" "map_of (dict_of B) t = Some (gb, s)"
    by (auto simp: dir_fails_spec_def)
  then have "t \<in> fst ` set A" "t \<in> fst ` set B"
    using dom_dict_of[of A t] dom_dict_of[of B t] by auto
  then show False using assms by blast
qed

lemma failing_pair_ids_cong:
  "(\<And>A B. v A B = w A B) \<Longrightarrow> failing_pair_ids v sd = failing_pair_ids w sd"
  by (simp add: failing_pair_ids_def)

text \<open>
  Claim C6. For every DIR input that is read without error and retains an even,
  non-zero number of sentences, \<^verbatim>\<open>evaluate_dir\<close> returns, and the failed identifiers
  are those of the consecutive pairs \<open>(A, B)\<close> of the sorted ids for which some token
  text is present in both last-write-wins maps with the same system label. The verdict
  of the code on a pair is that condition; a pair without a common token text passes.
\<close>

theorem dir_pair_fails_iff_common_token_same_label:
  "(dir_pair_failed A B \<longleftrightarrow> dir_fails_spec A B)
   \<and> (fst ` set A \<inter> fst ` set B = {} \<longrightarrow> \<not> dir_pair_failed A B)
   \<and> (for_lines (keyed_line dir_keep) [] ls = Inr sd \<and> even (length sd) \<and> sd \<noteq> []
        \<longrightarrow> (\<exists>rate. evaluate_dir ls = ([], Inr (rate, failing_pair_ids dir_fails_spec sd))))"
proof -
  have "\<exists>rate. evaluate_dir ls = ([], Inr (rate, failing_pair_ids dir_fails_spec sd))"
    if "for_lines (keyed_line dir_keep) [] ls = Inr sd" "even (length sd)" "sd \<noteq> []"
    using evaluate_pairs_even[OF that, of dir_pair_failed]
      failing_pair_ids_cong[of dir_pair_failed dir_fails_spec sd]
    by (auto simp: evaluate_dir_def dir_pair_failed_spec)
  then show ?thesis
    using dir_pair_failed_spec dir_no_common_token by blast
qed

lemma dir_example_read:
  "for_lines (keyed_line dir_keep) [] dir_example_file
     = Inr [(0, [(''ran'', ''ARG1'', ''ARG1'')]), (1, [(''ran'', ''ARG1'', ''ARG1'')]),
            (2, [(''ran'', ''ARG1'', ''ARG1'')]), (3, [(''ran'', ''ARG1'', ''ARG2'')])]"
  by code_simp

lemma dir_example_ids:
  "failing_pair_ids dir_pair_failed
     [(0, [(''ran'', ''ARG1'', ''ARG1'')]), (1, [(''ran'', ''ARG1'', ''ARG1'')]),
      (2, [(''ran'', ''ARG1'', ''ARG1'')]), (3, [(''ran'', ''ARG1'', ''ARG2'')])] = [''0-1'']"
  by code_simp

lemma dir_example_pair:
  "dir_pair_failed [(''ran'', ''ARG1'', ''ARG1'')] [(''ran'', ''ARG1'', ''ARG1'')]"
  by code_simp

theorem dir_pair_fails_iff_common_token_same_label_witness:
  "dir_fails_spec [(''ran'', ''ARG1'', ''ARG1'')] [(''ran'', ''ARG1'', ''ARG1'')]
   \<and> \<not> dir_pair_failed [(''ran'', ''ARG1'', ''ARG1'')] [(''walked'', ''ARG1'', ''ARG1'')]
   \<and> (\<exists>rate. evaluate_dir dir_example_file = ([], Inr (rate, [''0-1''])))"
proof -
  have ids: "failing_pair_ids dir_fails_spec
     [(0, [(''ran'', ''ARG1'', ''ARG1'')]), (1, [(''ran'', ''ARG1'', ''ARG1'')]),
      (2, [(''ran'', ''ARG1'', ''ARG1'')]), (3, [(''ran'', ''ARG1'', ''ARG2'')])] = [''0-1'']"
    using failing_pair_ids_cong[of dir_fails_spec dir_pair_failed] dir_example_ids
    by (simp add: dir_pair_failed_spec)
  have disjoint: "fst ` set [(''ran'', ''ARG1'', ''ARG1'')] \<inter> fst ` set [(''walked'', ''ARG1'', ''ARG1'')] = {}"
    by simp
  note t1 = dir_pair_fails_iff_common_token_same_label
      [of "[(''ran'', ''ARG1'', ''ARG1'')]" "[(''ran'', ''ARG1'', ''ARG1'')]" dir_example_file
          "[(0, [(''ran'', ''ARG1'', ''ARG1'')]), (1, [(''ran'', ''ARG1'', ''ARG1'')]),
            (2, [(''ran'', ''ARG1'', ''ARG1'')]), (3, [(''ran'', ''ARG1'', ''ARG2'')])]"]
  note t2 = dir_pair_fails_iff_common_token_same_label
      [of "[(''ran'', ''ARG1'', ''ARG1'')]" "[(''walked'', ''ARG1'', ''ARG1'')]" "[]" "[]"]
  from t1 dir_example_read
  have e: "\<exists>rate. evaluate_dir dir_example_file = ([], Inr (rate, [''0-1'']))"
    by (simp add: ids)
  from t1 dir_example_pair
  have s: "dir_fails_spec [(''ran'', ''ARG1'', ''ARG1'')] [(''ran'', ''ARG1'', ''ARG1'')]"
    by blast
  from t2 disjoint
  have n: "\<not> dir_pair_failed [(''ran'', ''ARG1'', ''ARG1'')] [(''walked'', ''ARG1'', ''ARG1'')]"
    by blast
  show ?thesis using e s n by blast
qed

lemma inv_repeat_read:
  "for_lines (keyed_line inv_keep) [] inv_repeat_file
     = Inr [(1, [(''ARG0'', ''ARG1''), (''ARG0'', ''ARG0'')]), (2, [(''ARG0'', ''ARG0'')])]"
  by code_simp

lemma inv_repeat_loop:
  "pair_loop inv_pair_failed [(1, [(''ARG0'', ''ARG1''), (''ARG0'', ''ARG0'')]), (2, [(''ARG0'', ''ARG0'')])]
     [1, 2] 0 (0, 0, [])
   = Inr (1, 1, [''1-2''])"
  by code_simp

lemma inv_repeat_maps:
  "dict_of [(''ARG0'', ''ARG1''), (''ARG0'', ''ARG0'')] = [(''ARG0'', ''ARG0'')]"
  "dict_of [(''ARG0'', ''ARG0'')] = [(''ARG0'', ''ARG0'')]"
  by code_simp+

text \<open>
  Claim C4. The claim: an INV pair \<open>(A, B)\<close> fails if and only if some gold label is
  present in both last-write-wins maps with different system labels, so that the two
  maps alone determine the verdict even when a gold label repeats within \<open>A\<close>.
  The code builds the map of \<open>A\<close> but scans the token list of \<open>A\<close>: in the file
  below sentence 1 has gold label ARG0 twice, labelled ARG1 and then ARG0, and sentence
  2 has it once, labelled ARG0. Both maps are \<open>{ARG0: ARG0}\<close>, no gold label maps to
  different system labels, and the pair fails.
\<close>

theorem inv_verdict_not_determined_by_maps:
  "for_lines (keyed_line inv_keep) [] inv_repeat_file
     = Inr [(1, [(''ARG0'', ''ARG1''), (''ARG0'', ''ARG0'')]), (2, [(''ARG0'', ''ARG0'')])]
   \<and> evaluate_inv inv_repeat_file = ([], Inr (100, [''1-2'']))
   \<and> dict_of [(''ARG0'', ''ARG1''), (''ARG0'', ''ARG0'')] = dict_of [(''ARG0'', ''ARG0'')]
   \<and> \<not> inv_fails_spec [(''ARG0'', ''ARG1''), (''ARG0'', ''ARG0'')] [(''ARG0'', ''ARG0'')]"
proof -
  have "evaluate_inv inv_repeat_file = ([], Inr (100, [''1-2'']))"
    unfolding evaluate_inv_def evaluate_pairs_def inv_repeat_read
    by (simp add: Let_def inv_repeat_loop bind_err_def float_defs)
  moreover have "\<not> inv_fails_spec [(''ARG0'', ''ARG1''), (''ARG0'', ''ARG0'')] [(''ARG0'', ''ARG0'')]"
    by (simp add: inv_fails_spec_def inv_repeat_maps)
  ultimately show ?thesis by (simp add: inv_repeat_read inv_repeat_maps)
qed

text \<open>
  Claim C4, amended. For every INV input that is read without error and retains an
  even, non-zero number of sentences, \<^verbatim>\<open>evaluate_inv\<close> returns, and a pair \<open>(A, B)\<close>
  is reported as failed if and only if some retained token \<open>(g, s)\<close> of \<open>A\<close> has its
  gold label \<open>g\<close> in the map of \<open>B\<close> with a system label other than \<open>s\<close>. When
  every token of \<open>A\<close> agrees with the map of \<open>A\<close> (no gold label repeats in \<open>A\<close> with
  differing system labels), this is the condition on the two maps.
\<close>

theorem inv_pair_fails_iff_token_differs:
  "(inv_pair_failed A B \<longleftrightarrow> inv_fails_tokens A B)
   \<and> ((\<forall>(g, s) \<in> set A. map_of (dict_of A) g = Some s)
        \<longrightarrow> (inv_pair_failed A B \<longleftrightarrow> inv_fails_spec A B))
   \<and> (for_lines (keyed_line inv_keep) [] ls = Inr sd \<and> even (length sd) \<and> sd \<noteq> []
        \<longrightarrow> (\<exists>rate. evaluate_inv ls = ([], Inr (rate, failing_pair_ids inv_fails_tokens sd))))"
proof -
  have "\<exists>rate. evaluate_inv ls = ([], Inr (rate, failing_pair_ids inv_fails_tokens sd))"
    if "for_lines (keyed_line inv_keep) [] ls = Inr sd" "even (length sd)" "sd \<noteq> []"
    using evaluate_pairs_even[OF that, of inv_pair_failed]
      failing_pair_ids_cong[of inv_pair_failed inv_fails_tokens sd]
    by (auto simp: evaluate_inv_def inv_pair_failed_tokens)
  then show ?thesis
    using inv_pair_failed_tokens inv_tokens_spec by blast
qed

lemma inv_example_read:
  "for_lines (keyed_line inv_keep) [] inv_example_file
     = Inr [(10, [(''ARG0'', ''ARG0'')]), (11, [(''ARG0'', ''ARG1'')]),
            (12, [(''ARG0'', ''ARG0'')]), (13, [(''ARG0'', ''ARG0'')])]"
  by code_simp

lemma inv_example_ids:
  "failing_pair_ids inv_pair_failed
     [(10, [(''ARG0'', ''ARG0'')]), (11, [(''ARG0'', ''ARG1'')]),
      (12, [(''ARG0'', ''ARG0'')]), (13, [(''ARG0'', ''ARG0'')])] = [''10-11'']"
  by code_simp

lemma inv_example_pair: "inv_pair_failed [(''ARG0'', ''ARG0'')] [(''ARG0'', ''ARG1'')]"
  by code_simp

theorem inv_pair_fails_iff_token_differs_witness:
  "inv_pair_failed [(''ARG0'', ''ARG0'')] [(''ARG0'', ''ARG1'')]
   \<and> inv_fails_tokens [(''ARG0'', ''ARG0'')] [(''ARG0'', ''ARG1'')]
   \<and> inv_fails_spec [(''ARG0'', ''ARG0'')] [(''ARG0'', ''ARG1'')]
   \<and> (\<exists>rate. evaluate_inv inv_example_file = ([], Inr (rate, [''10-11''])))"
proof -
  have agree: "\<forall>(g, s) \<in> set [(''ARG0'', ''ARG0'')]. map_of (dict_of [(''ARG0'', ''ARG0'')]) g = Some s"
    by (simp add: dict_of_def)
  have ids: "failing_pair_ids inv_fails_tokens
     [(10, [(''ARG0'', ''ARG0'')]), (11, [(''ARG0'', ''ARG1'')]),
      (12, [(''ARG0'', ''ARG0'')]), (13, [(''ARG0'', ''ARG0'')])] = [''10-11'']"
    using failing_pair_ids_cong[of inv_fails_tokens inv_pair_failed] inv_example_ids
    by (simp add: inv_pair_failed_tokens)
  show ?thesis
    using inv_pair_fails_iff_token_differs
      [of "[(''ARG0'', ''ARG0'')]" "[(''ARG0'', ''ARG1'')]" inv_example_file
          "[(10, [(''ARG0'', ''ARG0'')]), (11, [(''ARG0'', ''ARG1'')]),
            (12, [(''ARG0'', ''ARG0'')]), (13, [(''ARG0'', ''ARG0'')])]"]
      agree inv_example_read inv_example_pair
    by (simp add: ids)
qed

subsection \<open>The batch\<close>

lemma evaluate_file_unknown:
  "\<not> contains ''MFT'' p \<Longrightarrow> \<not> contains ''INV'' p \<Longrightarrow> \<not> contains ''DIR'' p
   \<Longrightarrow> evaluate_file fs p = ([Warning_unknown_type p, File_line (basename p)], Inl UnboundLocalError)"
  by (simp add: evaluate_file_def run_scorer_def)

lemma files_loop_abort:
  "endswith f ''.tsv'' \<Longrightarrow> snd (evaluate_file fs (path_join d f)) = Inl e
   \<Longrightarrow> \<forall>g \<in> set pre. endswith g ''.tsv'' \<longrightarrow> snd (evaluate_file fs (path_join d g)) = Inr ()
   \<Longrightarrow> snd (files_loop fs d (pre @ f # later)) = Inl e
       \<and> files_loop fs d (pre @ f # later) = files_loop fs d (pre @ [f])"
proof (induction pre)
  case Nil
  then show ?case by (cases "evaluate_file fs (path_join d f)") (auto split: sum.splits)
next
  case (Cons g pre)
  then show ?case
    by (cases "evaluate_file fs (path_join d g)")
       (auto split: sum.splits prod.splits)
qed

lemma files_loop_ok:
  "snd (files_loop fs d names) = Inr u \<Longrightarrow> f \<in> set names \<Longrightarrow> endswith f ''.tsv''
   \<Longrightarrow> snd (evaluate_file fs (path_join d f)) = Inr ()"
proof (induction names)
  case Nil
  then show ?case by simp
next
  case (Cons g names)
  then show ?case
    by (cases "evaluate_file fs (path_join d g)")
       (auto split: sum.splits prod.splits if_splits)
qed

lemma dirs_loop_ok:
  "snd (dirs_loop fs ds) = Inr u \<Longrightarrow> d \<in> set ds \<Longrightarrow> listdir fs d = Some names
   \<Longrightarrow> snd (files_loop fs d (sort (filter (\<lambda>f. \<not> isdir fs (path_join d f)) names))) = Inr ()"
proof (induction ds)
  case Nil
  then show ?case by simp
next
  case (Cons d' ds)
  then show ?case
    by (auto simp: Let_def split: option.splits sum.splits prod.splits)
qed

lemma main_ok:
  assumes "snd (main fs) = Inr u" "d \<in> set output_dirs" "listdir fs d = Some names"
    "f \<in> set names" "\<not> isdir fs (path_join d f)" "endswith f ''.tsv''"
  shows "snd (evaluate_file fs (path_join d f)) = Inr ()"
proof -
  have "snd (files_loop fs d (sort (filter (\<lambda>f. \<not> isdir fs (path_join d f)) names))) = Inr ()"
    using dirs_loop_ok assms(1,2,3) unfolding main_def by blast
  moreover have "f \<in> set (sort (filter (\<lambda>f. \<not> isdir fs (path_join d f)) names))"
    using assms(4,5) by simp
  ultimately show ?thesis using files_loop_ok assms(6) by blast
qed

lemma example_paths:
  "path_join ''datasets/output_M1'' ''1_MFT.tsv'' = ''datasets/output_M1/1_MFT.tsv''"
  "path_join ''datasets/output_M1'' ''2_MFT.tsv'' = ''datasets/output_M1/2_MFT.tsv''"
  "path_join ''datasets/output_M1'' ''3_MFT.tsv'' = ''datasets/output_M1/3_MFT.tsv''"
  "basename ''datasets/output_M1/1_MFT.tsv'' = ''1_MFT.tsv''"
  "basename ''datasets/output_M1/3_MFT.tsv'' = ''3_MFT.tsv''"
  "contains ''MFT'' ''datasets/output_M1/1_MFT.tsv''"
  "contains ''MFT'' ''datasets/output_M1/2_MFT.tsv''"
  "contains ''MFT'' ''datasets/output_M1/3_MFT.tsv''"
  "endswith ''1_MFT.tsv'' ''.tsv''"
  "endswith ''2_MFT.tsv'' ''.tsv''"
  "endswith ''3_MFT.tsv'' ''.tsv''"
  "\<not> contains ''MFT'' ''datasets/output_M1/notes.tsv''"
  "\<not> contains ''INV'' ''datasets/output_M1/notes.tsv''"
  "\<not> contains ''DIR'' ''datasets/output_M1/notes.tsv''"
  "sort [''3_MFT.tsv'', ''1_MFT.tsv'', ''2_MFT.tsv''] = [''1_MFT.tsv'', ''2_MFT.tsv'', ''3_MFT.tsv'']"
  by code_simp+

lemma example_open:
  "open_read example_fs ''datasets/output_M1/1_MFT.tsv'' = Some two_sentence_file"
  "open_read example_fs ''datasets/output_M1/2_MFT.tsv'' = Some []"
  "open_read example_fs ''datasets/output_M1/3_MFT.tsv'' = Some two_sentence_file"
  by (simp_all add: example_fs_def)

lemma example_listdir:
  "listdir example_fs ''datasets/output_M1'' = Some [''3_MFT.tsv'', ''1_MFT.tsv'', ''2_MFT.tsv'']"
  "isdir example_fs p = False"
  by (simp_all add: example_fs_def)

lemma evaluate_mft_Nil: "evaluate_mft [] = Inl ZeroDivisionError"
  by (simp add: evaluate_mft_def bind_err_def mft_init_def failure_rate_def)

lemma example_file_1:
  "evaluate_file example_fs ''datasets/output_M1/1_MFT.tsv''
     = ([File_line ''1_MFT.tsv'', Evaluation_type_line ''MFT'', Failure_rate_line 50,
         Failed_sentence_ids_line [''2'']], Inr ())"
  by (simp add: evaluate_file_def run_scorer_def example_paths example_open mft_example_result)

lemma example_file_2:
  "evaluate_file example_fs ''datasets/output_M1/2_MFT.tsv'' = ([], Inl ZeroDivisionError)"
  by (simp add: evaluate_file_def run_scorer_def example_paths example_open evaluate_mft_Nil)

lemma example_file_3:
  "evaluate_file example_fs ''datasets/output_M1/3_MFT.tsv''
     = ([File_line ''3_MFT.tsv'', Evaluation_type_line ''MFT'', Failure_rate_line 50,
         Failed_sentence_ids_line [''2'']], Inr ())"
  by (simp add: evaluate_file_def run_scorer_def example_paths example_open mft_example_result)

lemma example_main:
  "main example_fs
     = ([Evaluating_model_line ''datasets/output_M1'', File_line ''1_MFT.tsv'',
         Evaluation_type_line ''MFT'', Failure_rate_line 50, Failed_sentence_ids_line [''2'']],
        Inl ZeroDivisionError)"
  by (simp add: main_def output_dirs_def example_listdir example_paths
      example_file_1 example_file_2 del: sort_key_simps)

text \<open>
  Claim C3. The claim: a file whose name has none of MFT, INV, DIR is skipped with a
  warning, and an error raised for one file never aborts the other files of the batch.
  Nothing in \<^verbatim>\<open>evaluate_file\<close> or \<^verbatim>\<open>main\<close> catches an exception. In the example
  batch the empty file \<^verbatim>\<open>2_MFT.tsv\<close> raises ZeroDivisionError, \<^verbatim>\<open>main\<close> ends with
  that error after the report of \<^verbatim>\<open>1_MFT.tsv\<close>, and \<^verbatim>\<open>3_MFT.tsv\<close>, which evaluates
  without error on its own, is never reported.
\<close>

theorem batch_aborted_by_empty_file:
  "main example_fs
     = ([Evaluating_model_line ''datasets/output_M1'', File_line ''1_MFT.tsv'',
         Evaluation_type_line ''MFT'', Failure_rate_line 50, Failed_sentence_ids_line [''2'']],
        Inl ZeroDivisionError)
   \<and> evaluate_file example_fs ''datasets/output_M1/3_MFT.tsv''
     = ([File_line ''3_MFT.tsv'', Evaluation_type_line ''MFT'', Failure_rate_line 50,
         Failed_sentence_ids_line [''2'']], Inr ())"
  by (simp add: example_main example_file_3)

text \<open>
  Claim C3, amended. For a path that has none of MFT, INV, DIR, \<^verbatim>\<open>evaluate_file\<close>
  first prints a warning naming the path. An error raised while one file is evaluated
  is not caught: the loop over the files of a directory ends with that error and
  ignores the files after it, and \<^verbatim>\<open>main\<close> ends with an error whenever the evaluation
  of some \<^verbatim>\<open>.tsv\<close> file of one of its directories raises.
\<close>

theorem error_in_one_file_aborts_batch:
  "(\<not> contains ''MFT'' p \<and> \<not> contains ''INV'' p \<and> \<not> contains ''DIR'' p
      \<longrightarrow> (\<exists>out. fst (evaluate_file fs p) = Warning_unknown_type p # out))
   \<and> (endswith f ''.tsv'' \<and> snd (evaluate_file fs (path_join d f)) = Inl e
       \<and> (\<forall>g \<in> set pre. endswith g ''.tsv'' \<longrightarrow> snd (evaluate_file fs (path_join d g)) = Inr ())
      \<longrightarrow> snd (files_loop fs d (pre @ f # later)) = Inl e
          \<and> files_loop fs d (pre @ f # later) = files_loop fs d (pre @ [f]))
   \<and> (d \<in> set output_dirs \<and> listdir fs d = Some names \<and> f \<in> set names
       \<and> \<not> isdir fs (path_join d f) \<and> endswith f ''.tsv''
       \<and> snd (evaluate_file fs (path_join d f)) = Inl e
      \<longrightarrow> (\<exists>e'. snd (main fs) = Inl e'))"
proof -
  have a: "\<exists>out. fst (evaluate_file fs p) = Warning_unknown_type p # out"
    if "\<not> contains ''MFT'' p" "\<not> contains ''INV'' p" "\<not> contains ''DIR'' p"
    using evaluate_file_unknown[OF that] by simp
  have c: "\<exists>e'. snd (main fs) = Inl e'"
    if "d \<in> set output_dirs" "listdir fs d = Some names" "f \<in> set names"
       "\<not> isdir fs (path_join d f)" "endswith f ''.tsv''"
       "snd (evaluate_file fs (path_join d f)) = Inl e"
  proof (cases "snd (main fs)")
    case (Inl e')
    then show ?thesis by blast
  next
    case (Inr u)
    from main_ok[OF Inr that(1-5)] that(6) show ?thesis by simp
  qed
  show ?thesis using a c files_loop_abort[of f fs d e pre later] by blast
qed

theorem error_in_one_file_aborts_batch_witness:
  "(\<exists>out. fst (evaluate_file example_fs ''datasets/output_M1/notes.tsv'')
        = Warning_unknown_type ''datasets/output_M1/notes.tsv'' # out)
   \<and> snd (files_loop example_fs ''datasets/output_M1'' [''1_MFT.tsv'', ''2_MFT.tsv'', ''3_MFT.tsv''])
       = Inl ZeroDivisionError
   \<and> files_loop example_fs ''datasets/output_M1'' [''1_MFT.tsv'', ''2_MFT.tsv'', ''3_MFT.tsv'']
       = files_loop example_fs ''datasets/output_M1'' [''1_MFT.tsv'', ''2_MFT.tsv'']
   \<and> (\<exists>e'. snd (main example_fs) = Inl e')"
proof -
  have pre: "\<forall>g \<in> set [''1_MFT.tsv'']. endswith g ''.tsv''
       \<longrightarrow> snd (evaluate_file example_fs (path_join ''datasets/output_M1'' g)) = Inr ()"
    by (simp add: example_paths example_file_1)
  have bad: "snd (evaluate_file example_fs (path_join ''datasets/output_M1'' ''2_MFT.tsv''))
       = Inl ZeroDivisionError"
    by (simp add: example_paths example_file_2)
  have dir: "''datasets/output_M1'' \<in> set output_dirs" by (simp add: output_dirs_def)
  have f: "''2_MFT.tsv'' \<in> set [''3_MFT.tsv'', ''1_MFT.tsv'', ''2_MFT.tsv'']" by simp
  note t = error_in_one_file_aborts_batch
    [of "''datasets/output_M1/notes.tsv''" example_fs "''2_MFT.tsv''" "''datasets/output_M1''"
        ZeroDivisionError "[''1_MFT.tsv'']" "[''3_MFT.tsv'']"
        "[''3_MFT.tsv'', ''1_MFT.tsv'', ''2_MFT.tsv'']"]
  from t have a: "\<exists>out. fst (evaluate_file example_fs ''datasets/output_M1/notes.tsv'')
        = Warning_unknown_type ''datasets/output_M1/notes.tsv'' # out"
    using example_paths(12-14) by blast
  from t pre bad have b:
    "snd (files_loop example_fs ''datasets/output_M1'' ([''1_MFT.tsv''] @ ''2_MFT.tsv'' # [''3_MFT.tsv'']))
       = Inl ZeroDivisionError
     \<and> files_loop example_fs ''datasets/output_M1'' ([''1_MFT.tsv''] @ ''2_MFT.tsv'' # [''3_MFT.tsv''])
       = files_loop example_fs ''datasets/output_M1'' ([''1_MFT.tsv''] @ [''2_MFT.tsv''])"
    using example_paths(10) by blast
  from t dir f bad have c: "\<exists>e'. snd (main example_fs) = Inl e'"
    using example_paths(10) example_listdir by blast
  have b':
    "snd (files_loop example_fs ''datasets/output_M1'' [''1_MFT.tsv'', ''2_MFT.tsv'', ''3_MFT.tsv''])
       = Inl ZeroDivisionError
     \<and> files_loop example_fs ''datasets/output_M1'' [''1_MFT.tsv'', ''2_MFT.tsv'', ''3_MFT.tsv'']
       = files_loop example_fs ''datasets/output_M1'' [''1_MFT.tsv'', ''2_MFT.tsv'']"
    using b unfolding append_Cons append_Nil .
  show ?thesis using a b' c by blast
qed

end
